theory Spec2Isabelle
  imports Complex_Main "HOL-Library.List_Lexorder" "HOL-Library.Char_ord"
    "HOL-Library.Product_Lexorder"
begin

section \<open>Data frames\<close>

text \<open>
  The sources work on pandas data frames. A frame is modelled by its column labels, in
  their order, and its rows; a row maps a column label to a cell. A cell is a float, and
  \<open>None\<close> is NaN, the missing value. Floating-point arithmetic is modelled by the
  arithmetic of the reals, so rounding is abstracted away. An exception of the source is
  a value \<open>Inl e\<close> of the result.
\<close>


datatype error = KeyError string | UndefinedVariableError string | FileNotFoundError string
  | ProviderError string

type_synonym cell = "real option"
type_synonym row = "string \<Rightarrow> cell"

record frame =
  columns :: "string list"
  rows :: "row list"

definition and_then :: "error + 'a \<Rightarrow> ('a \<Rightarrow> error + 'b) \<Rightarrow> error + 'b" where
  "and_then m f = (case m of Inl e \<Rightarrow> Inl e | Inr x \<Rightarrow> f x)"

text \<open>
  \<open>and_then\<close> sequences two steps: an exception of the first step is the result.
  \<open>assign c reads F\<close> is the assignment \<open>df[c] = F(df)\<close> of a column computed from the
  columns \<open>reads\<close>: it raises KeyError on the first of them that the frame does not have.
\<close>

definition getcol :: "frame \<Rightarrow> string \<Rightarrow> cell list" where
  "getcol df c = map (\<lambda>r. r c) (rows df)"

definition set_col :: "frame \<Rightarrow> string \<Rightarrow> cell list \<Rightarrow> frame" where
  "set_col df c vs =
     \<lparr>columns = (if c \<in> set (columns df) then columns df else columns df @ [c]),
      rows = map2 (\<lambda>r v. r(c := v)) (rows df) vs\<rparr>"

definition assign :: "string \<Rightarrow> string list \<Rightarrow> (frame \<Rightarrow> cell list) \<Rightarrow> frame \<Rightarrow> error + frame" where
  "assign c reads F df =
     (case filter (\<lambda>x. x \<notin> set (columns df)) reads of
        [] \<Rightarrow> Inr (set_col df c (F df))
      | m # _ \<Rightarrow> Inl (KeyError m))"


section \<open>ERA5-Land: \<open>era5/utils.py\<close>\<close>

text \<open>
  NaN-propagating arithmetic of numpy: an operation on a NaN operand is NaN, and a
  comparison with NaN is false.
\<close>

definition nan1 :: "(real \<Rightarrow> real) \<Rightarrow> cell \<Rightarrow> cell" where
  "nan1 f a = (case a of None \<Rightarrow> None | Some x \<Rightarrow> Some (f x))"

definition nan2 :: "(real \<Rightarrow> real \<Rightarrow> real) \<Rightarrow> cell \<Rightarrow> cell \<Rightarrow> cell" where
  "nan2 f a b = (case a of None \<Rightarrow> None | Some x \<Rightarrow> (case b of None \<Rightarrow> None | Some y \<Rightarrow> Some (f x y)))"

definition nan_gt :: "cell \<Rightarrow> real \<Rightarrow> bool" where
  "nan_gt a y = (case a of None \<Rightarrow> False | Some x \<Rightarrow> x > y)"

definition arctan2 :: "real \<Rightarrow> real \<Rightarrow> real" where
  "arctan2 y x =
     (if x > 0 then arctan (y / x)
      else if x < 0 then (if y \<ge> 0 then arctan (y / x) + pi else arctan (y / x) - pi)
      else if y > 0 then pi / 2
      else if y < 0 then - (pi / 2)
      else 0)"

definition shift :: "'a list \<Rightarrow> int \<Rightarrow> 'a \<Rightarrow> 'a list" where
  "shift arr num fill_value =
     (let n = length arr in
      if num > 0 then replicate (min (nat num) n) fill_value @ take (n - nat num) arr
      else if num < 0 then drop (nat (- num)) arr @ replicate (min (nat (- num)) n) fill_value
      else arr)"

definition np_where :: "bool list \<Rightarrow> 'a list \<Rightarrow> 'a \<Rightarrow> 'a list" where
  "np_where cond xs y = map2 (\<lambda>c x. if c then x else y) cond xs"

text \<open>
  \<open>transformation_pipe\<close>, one \<open>assign\<close> for each assignment \<open>df[c] = ...\<close> of the
  source, in the source's order; reading a column the frame does not have raises KeyError.
  The input cells of the temperature and wind columns are read as they are at that point
  of the sequence, so the humidity is computed from the converted temperatures.
\<close>

definition transformation_pipe :: "frame \<Rightarrow> error + frame" where
  "transformation_pipe df0 =
     and_then (assign ''time'' [''time''] (\<lambda>d. getcol d ''time'') df0) (\<lambda>df.
     and_then (assign ''windSpeed'' [''windSpeedEast'', ''windSpeedNorth'']
        (\<lambda>d. map2 (nan2 (\<lambda>u v. sqrt (u\<^sup>2 + v\<^sup>2)))
                (getcol d ''windSpeedEast'') (getcol d ''windSpeedNorth'')) df) (\<lambda>df.
     and_then (assign ''windDirection'' [''windSpeedNorth'', ''windSpeedEast'']
        (\<lambda>d. map2 (nan2 (\<lambda>v u. arctan2 v u * 180 / pi + 180))
                (getcol d ''windSpeedNorth'') (getcol d ''windSpeedEast'')) df) (\<lambda>df.
     and_then (assign ''soilTemperature'' [''soilTemperature'']
        (\<lambda>d. map (nan1 (\<lambda>k. k - 273.15)) (getcol d ''soilTemperature'')) df) (\<lambda>df.
     and_then (assign ''dewAirTemperature'' [''dewAirTemperature'']
        (\<lambda>d. map (nan1 (\<lambda>k. k - 273.15)) (getcol d ''dewAirTemperature'')) df) (\<lambda>df.
     and_then (assign ''airTemperature'' [''airTemperature'']
        (\<lambda>d. map (nan1 (\<lambda>k. k - 273.15)) (getcol d ''airTemperature'')) df) (\<lambda>df.
     and_then (assign ''relativeHumidity'' [''dewAirTemperature'', ''airTemperature'']
        (\<lambda>d. map2 (nan2 (\<lambda>td t. (6.112 * exp (17.67 * td / (td + 243.5))) * 100 /
                                  (6.112 * exp (17.67 * t / (t + 243.5)))))
                (getcol d ''dewAirTemperature'') (getcol d ''airTemperature'')) df) (\<lambda>df.
     and_then (assign ''GHI'' [''GHI'']
        (\<lambda>d. map2 (nan2 (-)) (getcol d ''GHI'') (shift (getcol d ''GHI'') 1 None)) df) (\<lambda>df.
     and_then (assign ''GHI'' [''GHI'']
        (\<lambda>d. np_where (map (\<lambda>x. nan_gt x 0) (getcol d ''GHI''))
                (map (nan1 (\<lambda>x. x / 3600)) (getcol d ''GHI'')) (Some 0)) df) (\<lambda>df.
     and_then (assign ''totalPrecipitation'' [''totalPrecipitation'']
        (\<lambda>d. map2 (nan2 (-)) (getcol d ''totalPrecipitation'')
                (shift (getcol d ''totalPrecipitation'') 1 None)) df) (\<lambda>df.
     and_then (assign ''totalPrecipitation'' [''totalPrecipitation'']
        (\<lambda>d. np_where (map (\<lambda>x. nan_gt x 0) (getcol d ''totalPrecipitation''))
                (map (nan1 (\<lambda>x. x / 3600)) (getcol d ''totalPrecipitation'')) None) df) (\<lambda>df.
     Inr df)))))))))))"

text \<open>
  The two de-accumulation statements of \<open>transformation_pipe\<close> as one function of the
  column: the difference with the column shifted by one, then \<open>np.where(d > 0, d / 3600, other)\<close>.
\<close>

definition deaccumulate :: "cell \<Rightarrow> cell list \<Rightarrow> cell list" where
  "deaccumulate other xs =
     (let d = map2 (nan2 (-)) xs (shift xs 1 None)
      in np_where (map (\<lambda>x. nan_gt x 0) d) (map (nan1 (\<lambda>x. x / 3600)) d) other)"

text \<open>A frame of three hourly rows that has every column \<open>transformation_pipe\<close> reads.\<close>

definition era5_cols :: "string list" where
  "era5_cols = [''time'', ''windSpeedEast'', ''windSpeedNorth'', ''soilTemperature'',
     ''dewAirTemperature'', ''airTemperature'', ''GHI'', ''totalPrecipitation'']"

definition era5_row :: "real \<Rightarrow> real \<Rightarrow> real \<Rightarrow> real \<Rightarrow> real \<Rightarrow> real \<Rightarrow> real \<Rightarrow> real \<Rightarrow> row" where
  "era5_row t u v s d a g p =
     (\<lambda>c. None)(''time'' := Some t, ''windSpeedEast'' := Some u, ''windSpeedNorth'' := Some v,
       ''soilTemperature'' := Some s, ''dewAirTemperature'' := Some d, ''airTemperature'' := Some a,
       ''GHI'' := Some g, ''totalPrecipitation'' := Some p)"

definition era5_sample :: frame where
  "era5_sample = \<lparr>columns = era5_cols,
     rows = [era5_row 0 (-1) 0 280 285 290 7200 5, era5_row 3600 3 4 280 285 290 10800 5,
             era5_row 7200 0 1 280 285 290 3600 6]\<rparr>"


section \<open>MeteoGalicia: \<open>meteogalicia/__init__.py\<close>\<close>

text \<open>
  A day handed to the provider is a datetime: its calendar date, as the ordinal of the
  day counted from 1970-01-01 (what \<open>strftime\<close> prints), and its instant in epoch seconds.
  A request is the URL the source builds: the operational template of the last 14 days
  names the grid size in km, the domain, the day, the run, the longitude and the
  latitude; the historical template names the domain, the day, the longitude and the
  latitude only.

  The HTTP endpoint is outside the program. It is a parameter: \<open>get_csv\<close> stands for
  \<open>requests.get\<close> followed by \<open>pd.read_csv\<close>, takes the state of the world and returns the
  rows read or the exception raised, with the next state of the world; \<open>utcnow\<close> reads
  the clock of the world; \<open>parse_row\<close> stands for the conversion of one row (the renaming,
  \<open>pd.to_datetime\<close> and the conversion to epoch seconds of \<open>beemeteo.utils\<close>, then the
  selection of the columns ts and GHI). A session threads the world through the calls and
  records every attempt made and every error passed to \<open>logger.error\<close>.
\<close>

type_synonym resolution = "nat \<times> nat"

record moment =
  ordinal :: int
  epoch :: real

datatype request =
  Operational nat nat int nat real real
  | Historical nat int real real

record ('w, 'raw) provider =
  utcnow :: "'w \<Rightarrow> real"
  get_csv :: "'w \<Rightarrow> request \<Rightarrow> (error + 'raw list) \<times> 'w"
  parse_row :: "'raw \<Rightarrow> error + (real \<times> cell)"

record 'w session =
  world :: 'w
  attempts :: "(resolution \<times> request) list"
  logged :: "error list"

text \<open>
  \<open>pd.DataFrame({})\<close> has no column and no row. A parsed response is the frame of the
  columns ts and GHI.
\<close>

definition empty_frame :: frame where
  "empty_frame = \<lparr>columns = [], rows = []\<rparr>"

definition solar_row :: "real \<times> cell \<Rightarrow> row" where
  "solar_row p = (\<lambda>c. None)(''ts'' := Some (fst p), ''GHI'' := snd p)"

definition solar_frame :: "(real \<times> cell) list \<Rightarrow> frame" where
  "solar_frame ps = \<lparr>columns = [''ts'', ''GHI''], rows = map solar_row ps\<rparr>"

text \<open>
  A conversion applied to a whole column raises when it raises on one of its elements.
\<close>

fun map_result :: "('a \<Rightarrow> error + 'b) \<Rightarrow> 'a list \<Rightarrow> error + 'b list" where
  "map_result f [] = Inr []"
| "map_result f (x # xs) =
     (case f x of
        Inl e \<Rightarrow> Inl e
      | Inr y \<Rightarrow> (case map_result f xs of Inl e \<Rightarrow> Inl e | Inr ys \<Rightarrow> Inr (y # ys)))"

definition resolutions :: "resolution list" where
  "resolutions = [(4, 2), (12, 2), (12, 1), (36, 2), (36, 1)]"

text \<open>
  The URL of one resolution. \<open>(now - day).days\<close> is the difference in seconds divided by
  86400 and rounded down.
\<close>

definition url_mg :: "('w, 'raw) provider \<Rightarrow> real \<Rightarrow> real \<Rightarrow> moment \<Rightarrow> resolution \<Rightarrow> 'w \<Rightarrow> request" where
  "url_mg env latitude longitude day resolution w =
     (let run = 0 in
      if \<lfloor>(utcnow env w - epoch day) / 86400\<rfloor> \<le> 14
      then Operational (fst resolution) (snd resolution) (ordinal day) run longitude latitude
      else Historical (snd resolution) (ordinal day) longitude latitude)"

text \<open>
  The body of the \<open>try\<close> statement for one resolution: one request, recorded in the
  session; the result is the exception raised (by the request, by the empty table or by the
  parsing) or the frame returned.
\<close>

definition attempt ::
  "('w, 'raw) provider \<Rightarrow> real \<Rightarrow> real \<Rightarrow> moment \<Rightarrow> resolution \<Rightarrow> 'w session
     \<Rightarrow> (error + frame) \<times> 'w session" where
  "attempt env latitude longitude day resolution st =
     (let url = url_mg env latitude longitude day resolution (world st);
          (r, w') = get_csv env (world st) url;
          st' = st\<lparr>world := w', attempts := attempts st @ [(resolution, url)]\<rparr>
      in case r of
           Inl e \<Rightarrow> (Inl e, st')
         | Inr solar_data \<Rightarrow>
             if length solar_data = 0
             then (Inl (ProviderError ''Location out of the bounding box, trying with another resolution...''), st')
             else (case map_result (parse_row env) solar_data of
                     Inl e \<Rightarrow> (Inl e, st')
                   | Inr ps \<Rightarrow> (Inr (solar_frame ps), st')))"

text \<open>
  The \<open>for\<close> loop: \<open>except Exception\<close> logs the error and goes on with the next resolution;
  after the last one the empty frame is returned.
\<close>

fun try_resolutions ::
  "('w, 'raw) provider \<Rightarrow> real \<Rightarrow> real \<Rightarrow> moment \<Rightarrow> resolution list \<Rightarrow> 'w session
     \<Rightarrow> frame \<times> 'w session" where
  "try_resolutions env latitude longitude day [] st = (empty_frame, st)"
| "try_resolutions env latitude longitude day (resolution # rest) st =
     (case attempt env latitude longitude day resolution st of
        (Inr solar_data, st') \<Rightarrow> (solar_data, st')
      | (Inl e, st') \<Rightarrow>
          try_resolutions env latitude longitude day rest (st'\<lparr>logged := logged st' @ [e]\<rparr>))"

definition get_historic_data_day ::
  "('w, 'raw) provider \<Rightarrow> real \<Rightarrow> real \<Rightarrow> moment \<Rightarrow> 'w session \<Rightarrow> frame \<times> 'w session" where
  "get_historic_data_day env latitude longitude day st =
     try_resolutions env latitude longitude day resolutions st"



text \<open>
  Frame operations of \<open>_collect_forecasting\<close>: \<open>rename\<close> leaves a frame without the old
  label as it is; a scalar assigned to a column is given to every row; \<open>query\<close> on a
  column the frame does not have raises, and a comparison with NaN is false.
\<close>

definition rename_column :: "frame \<Rightarrow> string \<Rightarrow> string \<Rightarrow> frame" where
  "rename_column df old new =
     (if old \<in> set (columns df)
      then \<lparr>columns = map (\<lambda>c. if c = old then new else c) (columns df),
            rows = map (\<lambda>r. (r(new := r old))(old := None)) (rows df)\<rparr>
      else df)"

definition set_scalar :: "frame \<Rightarrow> string \<Rightarrow> real \<Rightarrow> frame" where
  "set_scalar df c v = set_col df c (replicate (length (rows df)) (Some v))"

definition query_ge :: "frame \<Rightarrow> string \<Rightarrow> real \<Rightarrow> error + frame" where
  "query_ge df c lo =
     (if c \<in> set (columns df)
      then Inr (df\<lparr>rows := filter (\<lambda>r. case r c of None \<Rightarrow> False | Some t \<Rightarrow> lo \<le> t) (rows df)\<rparr>)
      else Inl (UndefinedVariableError c))"

text \<open>
  \<open>int\<close> of a float truncates towards zero.
\<close>

definition py_int :: "real \<Rightarrow> int" where
  "py_int x = (if 0 \<le> x then \<lfloor>x\<rfloor> else \<lceil>x\<rceil>)"

definition collect_forecasting ::
  "('w, 'raw) provider \<Rightarrow> real \<Rightarrow> real \<Rightarrow> moment \<Rightarrow> 'w session \<Rightarrow> (error + frame) \<times> 'w session" where
  "collect_forecasting env latitude longitude now st =
     (let now_timestamp = py_int (epoch now);
          (forecasted_data, st') = get_historic_data_day env latitude longitude now st;
          forecasted_data = rename_column forecasted_data ''ts'' ''timestamp'';
          forecasted_data = set_scalar forecasted_data ''latitude'' latitude;
          forecasted_data = set_scalar forecasted_data ''longitude'' longitude;
          forecasted_data = set_scalar forecasted_data ''forecasting_timestamp'' (of_int now_timestamp)
      in (query_ge forecasted_data ''timestamp'' (of_int now_timestamp), st'))"

text \<open>
  A provider for the examples. Its world counts the requests. The 4 km grid refuses the
  connection, the 12 km grid of domain 2 has no row for the point, the other operational
  grids give four rows (the last two with the same timestamp), and the historical
  archive is empty. The sample day is the instant 1000.5.
\<close>

definition sample_provider :: "(nat, real \<times> real) provider" where
  "sample_provider =
     \<lparr>utcnow = (\<lambda>w. 1000),
      get_csv = (\<lambda>w url.
        (case url of
           Operational km grid d run lon lat \<Rightarrow>
             if km = 4 then Inl (ProviderError ''connection refused'')
             else if km = 12 \<and> grid = 2 then Inr []
             else Inr [(900, 1), (1000, 2), (4600, 3), (4600, 4)]
         | Historical grid d lon lat \<Rightarrow> Inr [], Suc w)),
      parse_row = (\<lambda>p. Inr (fst p, Some (snd p)))\<rparr>"

definition session0 :: "nat session" where
  "session0 = \<lparr>world = 0, attempts = [], logged = []\<rparr>"

definition sample_day :: moment where
  "sample_day = \<lparr>ordinal = 0, epoch = 1000.5\<rparr>"



subsection \<open>\<open>_get_historical_data_source\<close>\<close>

text \<open>
  The time zone \<open>local_tz\<close> is modelled by the function that gives the epoch second of
  local midnight of a calendar date. A gap is a pair of datetimes, of which the source
  reads the calendar dates only. \<open>pd.date_range\<close> with a daily frequency yields the
  calendar days from the first to the last, here the list of their ordinals.
  \<open>sort_values\<close> puts NaN last. Its default algorithm is quicksort, which does not fix
  the order of rows with equal keys, so the sorting function is a parameter of the model:
  \<open>sorts_by_key\<close> says all that is known of it, that the result is ordered by the key and
  is a rearrangement of the rows.
\<close>

type_synonym timezone = "int \<Rightarrow> real"

text \<open>
  Frame operations of the historical fetch. \<open>pd.concat\<close> keeps the columns of the first
  frame and appends the new ones of the second. \<open>sort_values\<close> on a missing column raises
  KeyError. \<open>drop_duplicates\<close> keeps the first row of every key. \<open>index_then_sorted\<close> is
  \<open>set_index(key_cols)[sorted(rest)].reset_index()\<close>: the key columns, then the others in
  sorted order. A frame is empty when it has no column or no row.
\<close>

definition concat_frames :: "frame \<Rightarrow> frame \<Rightarrow> frame" where
  "concat_frames a b =
     \<lparr>columns = columns a @ filter (\<lambda>c. c \<notin> set (columns a)) (columns b),
      rows = rows a @ rows b\<rparr>"

definition nan_last :: "string \<Rightarrow> row \<Rightarrow> nat \<times> real" where
  "nan_last c r = (case r c of None \<Rightarrow> (1, 0) | Some v \<Rightarrow> (0, v))"

type_synonym sorter = "(row \<Rightarrow> nat \<times> real) \<Rightarrow> row list \<Rightarrow> row list"

definition sorts_by_key :: "sorter \<Rightarrow> bool" where
  "sorts_by_key sorter =
     (\<forall>k xs. sorted (map k (sorter k xs)) \<and> (\<forall>r. count_list (sorter k xs) r = count_list xs r))"

definition sort_values :: "sorter \<Rightarrow> frame \<Rightarrow> string \<Rightarrow> error + frame" where
  "sort_values sorter df c =
     (if c \<in> set (columns df)
      then Inr (df\<lparr>rows := sorter (nan_last c) (rows df)\<rparr>)
      else Inl (KeyError c))"

definition query_between :: "frame \<Rightarrow> string \<Rightarrow> real \<Rightarrow> real \<Rightarrow> error + frame" where
  "query_between df c lo hi =
     (if c \<in> set (columns df)
      then Inr (df\<lparr>rows := filter (\<lambda>r. case r c of None \<Rightarrow> False | Some t \<Rightarrow> lo \<le> t \<and> t \<le> hi)
                              (rows df)\<rparr>)
      else Inl (UndefinedVariableError c))"

fun drop_seen :: "('a \<Rightarrow> 'k) \<Rightarrow> 'k list \<Rightarrow> 'a list \<Rightarrow> 'a list" where
  "drop_seen key seen [] = []"
| "drop_seen key seen (x # xs) =
     (if key x \<in> set seen then drop_seen key seen xs
      else x # drop_seen key (key x # seen) xs)"

definition drop_duplicates :: "frame \<Rightarrow> string list \<Rightarrow> error + frame" where
  "drop_duplicates df keys =
     (case filter (\<lambda>c. c \<notin> set (columns df)) keys of
        [] \<Rightarrow> Inr (df\<lparr>rows := drop_seen (\<lambda>r. map r keys) [] (rows df)\<rparr>)
      | c # _ \<Rightarrow> Inl (KeyError c))"

definition key_cols :: "string list" where
  "key_cols = [''latitude'', ''longitude'', ''ts'']"

definition index_then_sorted :: "frame \<Rightarrow> string list \<Rightarrow> error + frame" where
  "index_then_sorted df keys =
     (case filter (\<lambda>c. c \<notin> set (columns df)) keys of
        [] \<Rightarrow> Inr (df\<lparr>columns := keys @ sort (filter (\<lambda>c. c \<notin> set keys) (columns df))\<rparr>)
      | c # _ \<Rightarrow> Inl (KeyError c))"

definition is_empty :: "frame \<Rightarrow> bool" where
  "is_empty df = (columns df = [] \<or> rows df = [])"

text \<open>
  The inner loop over the days of a gap, and the loop over the gaps. MeteoGalicia's day
  starts at 01:00 UTC: when that instant is after local midnight of the first day, the
  loop starts one day earlier.
\<close>

fun fetch_days ::
  "('w, 'raw) provider \<Rightarrow> timezone \<Rightarrow> real \<Rightarrow> real \<Rightarrow> int list \<Rightarrow> frame \<Rightarrow> 'w session
     \<Rightarrow> frame \<times> 'w session" where
  "fetch_days env local_tz latitude longitude [] data_period st = (data_period, st)"
| "fetch_days env local_tz latitude longitude (d # ds) data_period st =
     (let (daily_data, st') =
            get_historic_data_day env latitude longitude \<lparr>ordinal = d, epoch = local_tz d\<rparr> st
      in fetch_days env local_tz latitude longitude ds (concat_frames data_period daily_data) st')"

fun fetch_gaps ::
  "('w, 'raw) provider \<Rightarrow> sorter \<Rightarrow> timezone \<Rightarrow> real \<Rightarrow> real \<Rightarrow> (moment \<times> moment) list \<Rightarrow> frame
     \<Rightarrow> 'w session \<Rightarrow> (error + frame) \<times> 'w session" where
  "fetch_gaps env sorter local_tz latitude longitude [] missing_data st = (Inr missing_data, st)"
| "fetch_gaps env sorter local_tz latitude longitude ((gap_ini, gap_end) # gaps) missing_data st =
     (let ts_ini = local_tz (ordinal gap_ini);
          ts_end = local_tz (ordinal gap_end);
          meteogalicia_start = 86400 * real_of_int (ordinal gap_ini) + 3600;
          d_loop = (if meteogalicia_start > ts_ini then ordinal gap_ini - 1 else ordinal gap_ini);
          (data_period, st') =
             fetch_days env local_tz latitude longitude [d_loop..ordinal gap_end] empty_frame st
      in case and_then (sort_values sorter data_period ''ts'')
                (\<lambda>data_period. query_between data_period ''ts'' ts_ini (ts_end + 23 * 3600)) of
           Inl e \<Rightarrow> (Inl e, st')
         | Inr data_period \<Rightarrow>
             fetch_gaps env sorter local_tz latitude longitude gaps
               (concat_frames missing_data data_period) st')"

definition get_historical_data_source ::
  "('w, 'raw) provider \<Rightarrow> sorter \<Rightarrow> timezone \<Rightarrow> real \<Rightarrow> real \<Rightarrow> (moment \<times> moment) list
     \<Rightarrow> 'w session \<Rightarrow> (error + frame) \<times> 'w session" where
  "get_historical_data_source env sorter local_tz latitude longitude gaps st =
     (case fetch_gaps env sorter local_tz latitude longitude gaps empty_frame st of
        (Inl e, st') \<Rightarrow> (Inl e, st')
      | (Inr missing_data, st') \<Rightarrow>
          (and_then (sort_values sorter missing_data ''ts'') (\<lambda>missing_data.
           and_then (drop_duplicates
                      (set_scalar (set_scalar missing_data ''latitude'' latitude) ''longitude'' longitude)
                      [''latitude'', ''longitude'', ''ts'']) (\<lambda>missing_data.
           if \<not> is_empty missing_data then index_then_sorted missing_data key_cols
           else Inr missing_data)), st'))"

text \<open>
  The time zone UTC, and the table of a result (its columns and the cells of its rows in
  the order of the columns), for the examples.
\<close>

definition utc :: timezone where
  "utc d = 86400 * real_of_int d"

definition frame_table :: "error + frame \<Rightarrow> (string list \<times> cell list list) option" where
  "frame_table r = (case r of Inl e \<Rightarrow> None | Inr f \<Rightarrow> Some (columns f, map (\<lambda>r. map r (columns f)) (rows f)))"

text \<open>
  A provider for the examples of the historical fetch: every operational request gives
  the same three rows, with distinct timestamps, so the rows of two days that share a
  timestamp are equal and every sort gives the same table. The requested range of the
  examples runs from 10:00 to 12:00 of day 0; nothing is stored, so it is the one gap.
  A second gap covers day 1.
\<close>

definition history_provider :: "(nat, real \<times> real) provider" where
  "history_provider =
     \<lparr>utcnow = (\<lambda>w. 1000),
      get_csv = (\<lambda>w url.
        (case url of
           Operational km grid d run lon lat \<Rightarrow> Inr [(900, 1), (1000, 2), (4600, 3)]
         | Historical grid d lon lat \<Rightarrow> Inr [], Suc w)),
      parse_row = (\<lambda>p. Inr (fst p, Some (snd p)))\<rparr>"

definition date_from :: moment where
  "date_from = \<lparr>ordinal = 0, epoch = 36000\<rparr>"

definition date_to :: moment where
  "date_to = \<lparr>ordinal = 0, epoch = 43200\<rparr>"

definition next_day :: moment where
  "next_day = \<lparr>ordinal = 1, epoch = 86400\<rparr>"

subsection \<open>\<open>query_from_grib\<close> of \<open>era5/utils.py\<close>\<close>

text \<open>
  The file system is the set of the paths that exist. \<open>cfgrib.open_datasets\<close> is a
  parameter: for a GRIB file and an index path it says whether the index file has been
  written and returns the datasets or the exception raised. \<open>load_frame\<close> stands for
  \<open>to_dataframe\<close>, \<open>cleaning_pipe\<close> and the merge of the datasets of one file. The hash is
  the decimal text of the random integer. The list of GRIB files is the sorted listing
  the source computes, paired with the hash drawn for each file.
\<close>

record 'd grib_reader =
  open_datasets :: "string \<Rightarrow> string \<Rightarrow> bool \<times> (error + 'd)"
  load_frame :: "'d \<Rightarrow> error + frame"

definition index_path :: "string \<Rightarrow> string \<Rightarrow> string" where
  "index_path fn hash = fn @ ''.'' @ hash @ ''.idx''"

definition os_remove :: "string set \<Rightarrow> string \<Rightarrow> (error + unit) \<times> string set" where
  "os_remove files p =
     (if p \<in> files then (Inr (), files - {p}) else (Inl (FileNotFoundError p), files))"

text \<open>
  The body of the loop for one file: \<open>os.remove\<close> is the statement after
  \<open>cfgrib.open_datasets\<close>, so it is reached only when that call returns.
\<close>

definition load_grib ::
  "'d grib_reader \<Rightarrow> string set \<Rightarrow> string \<Rightarrow> string \<Rightarrow> (error + frame) \<times> string set" where
  "load_grib env files fn hash =
     (let (written, dg) = open_datasets env fn (index_path fn hash);
          files = (if written then insert (index_path fn hash) files else files)
      in case dg of
           Inl e \<Rightarrow> (Inl e, files)
         | Inr dg \<Rightarrow>
             (case os_remove files (index_path fn hash) of
                (Inl e, files) \<Rightarrow> (Inl e, files)
              | (Inr u, files) \<Rightarrow> (and_then (load_frame env dg) transformation_pipe, files)))"

fun grib_loop ::
  "'d grib_reader \<Rightarrow> string set \<Rightarrow> (string \<times> string) list \<Rightarrow> frame option
     \<Rightarrow> (error + frame option) \<times> string set" where
  "grib_loop env files [] df = (Inr df, files)"
| "grib_loop env files ((fn, hash) # rest) df =
     (case load_grib env files fn hash of
        (Inl e, files) \<Rightarrow> (Inl e, files)
      | (Inr df', files) \<Rightarrow>
          grib_loop env files rest
            (Some (case df of None \<Rightarrow> df' | Some df \<Rightarrow> concat_frames df df')))"

definition query_from_grib ::
  "'d grib_reader \<Rightarrow> string set \<Rightarrow> (string \<times> string) list \<Rightarrow> (error + frame option) \<times> string set" where
  "query_from_grib env files list_grib_files = grib_loop env files list_grib_files None"

text \<open>
  Two readers for the examples: one that writes the index and fails to parse, one that
  writes the index and returns.
\<close>

definition broken_reader :: "unit grib_reader" where
  "broken_reader =
     \<lparr>open_datasets = (\<lambda>fn idx. (True, Inl (ProviderError ''premature end of file''))),
      load_frame = (\<lambda>d. Inr era5_sample)\<rparr>"

definition sample_reader :: "unit grib_reader" where
  "sample_reader =
     \<lparr>open_datasets = (\<lambda>fn idx. (True, Inr ())),
      load_frame = (\<lambda>d. Inr era5_sample)\<rparr>"

subsection \<open>\<open>_collect_raster\<close>\<close>

text \<open>
  A raw grid cell has its two timestamps in nanoseconds, its coordinates and its numeric
  columns. \<open>round\<close> of a pandas series rounds half to even. The coordinate key is the text
  of the rounded value divided by ten, as \<open>astype(str)\<close> prints a float with one decimal,
  with \<open>-0.0\<close> replaced by \<open>0.0\<close>; \<open>show_nat\<close> gives the decimal digits of a natural
  number. \<open>groupby\<close> sorts the groups by key, and \<open>mean\<close> skips NaN.
\<close>

record raster_cell =
  cell_forecasting_timestamp :: int
  cell_timestamp :: int
  cell_latitude :: real
  cell_longitude :: real
  cell_values :: "string \<Rightarrow> cell"

record raster_frame =
  raster_columns :: "string list"
  raster_cells :: "raster_cell list"

record raster_row =
  row_forecasting_timestamp :: int
  row_timestamp :: int
  row_latitude :: string
  row_longitude :: string
  row_means :: "string \<Rightarrow> cell"

definition round_half_even :: "real \<Rightarrow> int" where
  "round_half_even x =
     (let f = \<lfloor>x\<rfloor>; d = x - of_int f
      in if d < 1 / 2 then f else if d > 1 / 2 then f + 1 else if even f then f else f + 1)"

definition digit_chars :: string where
  "digit_chars = ''0123456789''"

function show_nat :: "nat \<Rightarrow> string" where
  "show_nat n =
     (if n < 10 then [digit_chars ! n]
      else show_nat (n div 10) @ [digit_chars ! (n mod 10)])"
  by pat_completeness auto

termination
  by (relation "measure id") auto

definition str_tenths :: "bool \<Rightarrow> int \<Rightarrow> string" where
  "str_tenths negative k =
     (if negative then ''-'' else []) @ show_nat (nat \<bar>k\<bar> div 10) @ ''.'' @ show_nat (nat \<bar>k\<bar> mod 10)"

definition rounded_coordinate :: "real \<Rightarrow> string" where
  "rounded_coordinate x =
     (let precision = 10;
          s = str_tenths (x < 0) (round_half_even (x * precision))
      in if s = ''-0.0'' then ''0.0'' else s)"

text \<open>
  The aggregated columns, and the mean of a group: NaN values are left out, and a group
  where every value is NaN has the mean NaN.
\<close>

definition cols_mean :: "string list" where
  "cols_mean = [''totalPrecipitation'', ''relativeHumidity'', ''GHI'', ''airTemperature'',
     ''atmosphericPressure'', ''cloudCloverHighLevels'', ''cloudCloverMidLevels'',
     ''cloudCloverLowLevels'', ''visibility'', ''u'', ''v'']"

definition nan_mean :: "cell list \<Rightarrow> cell" where
  "nan_mean vs =
     (let xs = List.map_filter (\<lambda>v. v) vs
      in if xs = [] then None else Some (sum_list xs / real (length xs)))"

definition key_of :: "raster_cell \<Rightarrow> int \<times> int \<times> string \<times> string" where
  "key_of x =
     (cell_forecasting_timestamp x div 1000000000, cell_timestamp x div 1000000000,
      rounded_coordinate (cell_latitude x), rounded_coordinate (cell_longitude x))"

text \<open>
  Two raw cells belong together when their two timestamps fall in the same second and
  their coordinates round to the same tenths.
\<close>

definition same_group :: "raster_cell \<Rightarrow> raster_cell \<Rightarrow> bool" where
  "same_group x y =
     (cell_forecasting_timestamp x div 1000000000 = cell_forecasting_timestamp y div 1000000000 \<and>
      cell_timestamp x div 1000000000 = cell_timestamp y div 1000000000 \<and>
      round_half_even (cell_latitude x * 10) = round_half_even (cell_latitude y * 10) \<and>
      round_half_even (cell_longitude x * 10) = round_half_even (cell_longitude y * 10))"

definition row_key :: "raster_row \<Rightarrow> int \<times> int \<times> string \<times> string" where
  "row_key r = (row_forecasting_timestamp r, row_timestamp r, row_latitude r, row_longitude r)"

definition group_row :: "raster_cell list \<Rightarrow> int \<times> int \<times> string \<times> string \<Rightarrow> raster_row" where
  "group_row cells k =
     (case k of (fts, ts, la, lo) \<Rightarrow>
        \<lparr>row_forecasting_timestamp = fts, row_timestamp = ts, row_latitude = la, row_longitude = lo,
         row_means = (\<lambda>c. if c \<in> set cols_mean
                           then nan_mean (map (\<lambda>x. cell_values x c) (filter (\<lambda>x. key_of x = k) cells))
                           else None)\<rparr>)"

definition groupby_mean :: "raster_cell list \<Rightarrow> raster_row list" where
  "groupby_mean cells = map (group_row cells) (sort (remdups (map key_of cells)))"

text \<open>
  \<open>drop\<close>, the column reads and \<open>agg\<close> raise KeyError on a column the fetched frame does
  not have, as it is the case for the empty frame a failed fetch returns.
\<close>

definition require :: "string list \<Rightarrow> string list \<Rightarrow> (error + unit)" where
  "require present needed =
     (case filter (\<lambda>c. c \<notin> set present) needed of [] \<Rightarrow> Inr () | c # _ \<Rightarrow> Inl (KeyError c))"

definition collect_raster ::
  "(real \<Rightarrow> real \<Rightarrow> real \<Rightarrow> real \<Rightarrow> moment \<Rightarrow> raster_frame) \<Rightarrow> real \<Rightarrow> real \<Rightarrow> real \<Rightarrow> real \<Rightarrow> moment
     \<Rightarrow> error + raster_row list" where
  "collect_raster get_historic_forecasting_raster min_lat max_lat min_lon max_lon day =
     (let forecasted_data = get_historic_forecasting_raster min_lat max_lat min_lon max_lon day in
      and_then (require (raster_columns forecasted_data)
                  [''Lambert_Conformal'', ''windSpeed'', ''windDirection'']) (\<lambda>_.
      and_then (require (raster_columns forecasted_data)
                  [''timestamp'', ''forecasting_timestamp'', ''latitude'', ''longitude'']) (\<lambda>_.
      and_then (require (raster_columns forecasted_data) cols_mean) (\<lambda>_.
      Inr (groupby_mean (raster_cells forecasted_data))))))"

text \<open>
  Two adjacent grid cells for the example.
\<close>

definition raster_columns_all :: "string list" where
  "raster_columns_all = [''Lambert_Conformal'', ''windSpeed'', ''windDirection'', ''timestamp'',
     ''forecasting_timestamp'', ''latitude'', ''longitude''] @ cols_mean"

definition sample_cell :: "real \<Rightarrow> real \<Rightarrow> real \<Rightarrow> raster_cell" where
  "sample_cell la lo v =
     \<lparr>cell_forecasting_timestamp = 1600000000000000000, cell_timestamp = 1600003600000000000,
      cell_latitude = la, cell_longitude = lo, cell_values = (\<lambda>c. Some v)\<rparr>"

definition sample_raster :: "real \<Rightarrow> real \<Rightarrow> real \<Rightarrow> real \<Rightarrow> moment \<Rightarrow> raster_frame" where
  "sample_raster min_lat max_lat min_lon max_lon day =
     \<lparr>raster_columns = raster_columns_all,
      raster_cells = [sample_cell 42.31 (- 0.04) 10, sample_cell 42.34 0.04 20]\<rparr>"

declare show_nat.simps [simp del]

section \<open>Properties of the ERA5-Land normalizer\<close>

lemma length_getcol [simp]: "length (getcol df c) = length (rows df)"
  by (simp add: getcol_def)

lemma nth_getcol [simp]: "i < length (rows df) \<Longrightarrow> getcol df c ! i = (rows df ! i) c"
  by (simp add: getcol_def)

lemma length_shift [simp]: "length (shift arr num v) = length arr"
  by (auto simp: shift_def Let_def)

lemma and_then_Inr: "and_then m f = Inr y \<Longrightarrow> \<exists>x. m = Inr x \<and> f x = Inr y"
  by (cases m) (simp_all add: and_then_def)

lemma assign_Inr:
  assumes "assign c reads F df = Inr df'" and "length (F df) = length (rows df)"
  shows "length (rows df') = length (rows df)"
    and "set reads \<subseteq> set (columns df)"
    and "\<And>i. i < length (rows df) \<Longrightarrow> rows df' ! i = (rows df ! i)(c := F df ! i)"
  using assms by (auto simp: assign_def set_col_def filter_empty_conv split: list.splits)


lemma getcol_set_col_same:
  "length vs = length (rows df) \<Longrightarrow> getcol (set_col df c vs) c = vs"
  by (rule nth_equalityI) (simp_all add: getcol_def set_col_def)

lemma getcol_set_col_other:
  "length vs = length (rows df) \<Longrightarrow> c' \<noteq> c \<Longrightarrow> getcol (set_col df c vs) c' = getcol df c'"
  by (rule nth_equalityI) (simp_all add: getcol_def set_col_def)

lemma assign_cols:
  assumes "assign c reads F df = Inr df'" and "length (F df) = length (rows df)"
  shows "getcol df' c = F df"
    and "\<And>c'. c' \<noteq> c \<Longrightarrow> getcol df' c' = getcol df c'"
    and "length (rows df') = length (rows df)"
proof -
  from assms(1) have eq: "df' = set_col df c (F df)"
    by (auto simp: assign_def split: list.splits)
  show "getcol df' c = F df"
    using assms(2) by (simp add: eq getcol_set_col_same)
  show "\<And>c'. c' \<noteq> c \<Longrightarrow> getcol df' c' = getcol df c'"
    using assms(2) by (simp add: eq getcol_set_col_other)
  show "length (rows df') = length (rows df)"
    using assms(2) by (simp add: eq set_col_def)
qed

lemma length_np_where [simp]:
  "length (np_where cs xs y) = min (length cs) (length xs)"
  by (simp add: np_where_def)

lemma transformation_pipe_columns:
  assumes "transformation_pipe df0 = Inr df'"
  shows "length (rows df') = length (rows df0)"
    and "getcol df' ''windSpeed'' =
           map2 (nan2 (\<lambda>u v. sqrt (u\<^sup>2 + v\<^sup>2)))
             (getcol df0 ''windSpeedEast'') (getcol df0 ''windSpeedNorth'')"
    and "getcol df' ''windDirection'' =
           map2 (nan2 (\<lambda>v u. arctan2 v u * 180 / pi + 180))
             (getcol df0 ''windSpeedNorth'') (getcol df0 ''windSpeedEast'')"
    and "getcol df' ''soilTemperature'' = map (nan1 (\<lambda>k. k - 273.15)) (getcol df0 ''soilTemperature'')"
    and "getcol df' ''dewAirTemperature'' = map (nan1 (\<lambda>k. k - 273.15)) (getcol df0 ''dewAirTemperature'')"
    and "getcol df' ''airTemperature'' = map (nan1 (\<lambda>k. k - 273.15)) (getcol df0 ''airTemperature'')"
    and "getcol df' ''relativeHumidity'' =
           map2 (nan2 (\<lambda>td t. (6.112 * exp (17.67 * td / (td + 243.5))) * 100 /
                                  (6.112 * exp (17.67 * t / (t + 243.5)))))
             (getcol df' ''dewAirTemperature'') (getcol df' ''airTemperature'')"
    and "getcol df' ''GHI'' = deaccumulate (Some 0) (getcol df0 ''GHI'')"
    and "getcol df' ''totalPrecipitation'' = deaccumulate None (getcol df0 ''totalPrecipitation'')"
proof -
  from assms obtain d1 d2 d3 d4 d5 d6 d7 d8 d9 d10 where
    s1: "assign ''time'' [''time''] (\<lambda>d. getcol d ''time'') df0 = Inr d1" and
    s2: "assign ''windSpeed'' [''windSpeedEast'', ''windSpeedNorth'']
        (\<lambda>d. map2 (nan2 (\<lambda>u v. sqrt (u\<^sup>2 + v\<^sup>2)))
                (getcol d ''windSpeedEast'') (getcol d ''windSpeedNorth'')) d1 = Inr d2" and
    s3: "assign ''windDirection'' [''windSpeedNorth'', ''windSpeedEast'']
        (\<lambda>d. map2 (nan2 (\<lambda>v u. arctan2 v u * 180 / pi + 180))
                (getcol d ''windSpeedNorth'') (getcol d ''windSpeedEast'')) d2 = Inr d3" and
    s4: "assign ''soilTemperature'' [''soilTemperature'']
        (\<lambda>d. map (nan1 (\<lambda>k. k - 273.15)) (getcol d ''soilTemperature'')) d3 = Inr d4" and
    s5: "assign ''dewAirTemperature'' [''dewAirTemperature'']
        (\<lambda>d. map (nan1 (\<lambda>k. k - 273.15)) (getcol d ''dewAirTemperature'')) d4 = Inr d5" and
    s6: "assign ''airTemperature'' [''airTemperature'']
        (\<lambda>d. map (nan1 (\<lambda>k. k - 273.15)) (getcol d ''airTemperature'')) d5 = Inr d6" and
    s7: "assign ''relativeHumidity'' [''dewAirTemperature'', ''airTemperature'']
        (\<lambda>d. map2 (nan2 (\<lambda>td t. (6.112 * exp (17.67 * td / (td + 243.5))) * 100 /
                                  (6.112 * exp (17.67 * t / (t + 243.5)))))
                (getcol d ''dewAirTemperature'') (getcol d ''airTemperature'')) d6 = Inr d7" and
    s8: "assign ''GHI'' [''GHI'']
        (\<lambda>d. map2 (nan2 (-)) (getcol d ''GHI'') (shift (getcol d ''GHI'') 1 None)) d7 = Inr d8" and
    s9: "assign ''GHI'' [''GHI'']
        (\<lambda>d. np_where (map (\<lambda>x. nan_gt x 0) (getcol d ''GHI''))
                (map (nan1 (\<lambda>x. x / 3600)) (getcol d ''GHI'')) (Some 0)) d8 = Inr d9" and
    s10: "assign ''totalPrecipitation'' [''totalPrecipitation'']
        (\<lambda>d. map2 (nan2 (-)) (getcol d ''totalPrecipitation'')
                (shift (getcol d ''totalPrecipitation'') 1 None)) d9 = Inr d10" and
    s11: "assign ''totalPrecipitation'' [''totalPrecipitation'']
        (\<lambda>d. np_where (map (\<lambda>x. nan_gt x 0) (getcol d ''totalPrecipitation''))
                (map (nan1 (\<lambda>x. x / 3600)) (getcol d ''totalPrecipitation'')) None) d10 = Inr df'"
    unfolding transformation_pipe_def by (blast dest!: and_then_Inr)
  note c1 = assign_cols [OF s1, simplified]
  note c2 = assign_cols [OF s2, simplified]
  note c3 = assign_cols [OF s3, simplified]
  note c4 = assign_cols [OF s4, simplified]
  note c5 = assign_cols [OF s5, simplified]
  note c6 = assign_cols [OF s6, simplified]
  note c7 = assign_cols [OF s7, simplified]
  note c8 = assign_cols [OF s8, simplified]
  note c9 = assign_cols [OF s9, simplified]
  note c10 = assign_cols [OF s10, simplified]
  note c11 = assign_cols [OF s11, simplified]
  show "length (rows df') = length (rows df0)"
    by (simp add: c1 c2 c3 c4 c5 c6 c7 c8 c9 c10 c11)
  show "getcol df' ''windSpeed'' =
           map2 (nan2 (\<lambda>u v. sqrt (u\<^sup>2 + v\<^sup>2)))
             (getcol df0 ''windSpeedEast'') (getcol df0 ''windSpeedNorth'')"
    by (simp add: c1 c2 c3 c4 c5 c6 c7 c8 c9 c10 c11)
  show "getcol df' ''windDirection'' =
           map2 (nan2 (\<lambda>v u. arctan2 v u * 180 / pi + 180))
             (getcol df0 ''windSpeedNorth'') (getcol df0 ''windSpeedEast'')"
    by (simp add: c1 c2 c3 c4 c5 c6 c7 c8 c9 c10 c11)
  show "getcol df' ''soilTemperature'' = map (nan1 (\<lambda>k. k - 273.15)) (getcol df0 ''soilTemperature'')"
    by (simp add: c1 c2 c3 c4 c5 c6 c7 c8 c9 c10 c11)
  show "getcol df' ''dewAirTemperature'' = map (nan1 (\<lambda>k. k - 273.15)) (getcol df0 ''dewAirTemperature'')"
    by (simp add: c1 c2 c3 c4 c5 c6 c7 c8 c9 c10 c11)
  show "getcol df' ''airTemperature'' = map (nan1 (\<lambda>k. k - 273.15)) (getcol df0 ''airTemperature'')"
    by (simp add: c1 c2 c3 c4 c5 c6 c7 c8 c9 c10 c11)
  show "getcol df' ''relativeHumidity'' =
           map2 (nan2 (\<lambda>td t. (6.112 * exp (17.67 * td / (td + 243.5))) * 100 /
                                  (6.112 * exp (17.67 * t / (t + 243.5)))))
             (getcol df' ''dewAirTemperature'') (getcol df' ''airTemperature'')"
    by (simp add: c1 c2 c3 c4 c5 c6 c7 c8 c9 c10 c11)
  show "getcol df' ''GHI'' = deaccumulate (Some 0) (getcol df0 ''GHI'')"
    by (simp add: c1 c2 c3 c4 c5 c6 c7 c8 c9 c10 c11 deaccumulate_def Let_def)
  show "getcol df' ''totalPrecipitation'' = deaccumulate None (getcol df0 ''totalPrecipitation'')"
    by (simp add: c1 c2 c3 c4 c5 c6 c7 c8 c9 c10 c11 deaccumulate_def Let_def)
qed


lemma assign_total:
  assumes "set reads \<subseteq> set (columns df)"
  shows "\<exists>df'. assign c reads F df = Inr df' \<and> set (columns df) \<subseteq> set (columns df')"
proof -
  from assms have "filter (\<lambda>x. x \<notin> set (columns df)) reads = []"
    by (auto simp: filter_empty_conv)
  then show ?thesis
    by (auto simp: assign_def set_col_def)
qed



lemma step_total:
  assumes "S \<subseteq> set (columns df)" and "set reads \<subseteq> S"
    and "\<And>d. S \<subseteq> set (columns d) \<Longrightarrow> \<exists>r. k d = Inr r"
  shows "\<exists>r. and_then (assign c reads F df) k = Inr r"
proof -
  from assms(1,2) have "set reads \<subseteq> set (columns df)" by blast
  from assign_total [OF this] obtain d where
    "assign c reads F df = Inr d" "set (columns df) \<subseteq> set (columns d)" by blast
  with assms(1,3) show ?thesis by (simp add: and_then_def)
qed

lemma transformation_pipe_total:
  assumes "set era5_cols \<subseteq> set (columns df0)"
  shows "\<exists>df'. transformation_pipe df0 = Inr df'"
  unfolding transformation_pipe_def
  by (rule step_total [where S = "set era5_cols"], (rule assms | assumption), simp add: era5_cols_def)+ simp

lemma era5_sample_runs: "\<exists>df'. transformation_pipe era5_sample = Inr df'"
  by (rule transformation_pipe_total) (simp add: era5_sample_def)


lemma arctan2_bounds: "- pi < arctan2 y x \<and> arctan2 y x \<le> pi"
proof -
  have b: "- (pi / 2) < arctan (y / x)" "arctan (y / x) < pi / 2"
    by (rule arctan_lbound, rule arctan_ubound)
  have p: "0 < pi" by simp
  consider "x > 0" | "x < 0" "y \<ge> 0" | "x < 0" "y < 0" | "x = 0" by linarith
  then show ?thesis
  proof cases
    case 1
    with b p show ?thesis by (simp add: arctan2_def)
  next
    case 2
    then have "y / x \<le> 0" by (simp add: divide_nonneg_neg)
    then have "arctan (y / x) \<le> 0" by (simp add: arctan_le_zero_iff)
    with 2 b p show ?thesis by (simp add: arctan2_def; linarith)
  next
    case 3
    then have "0 < y / x" by (simp add: divide_neg_neg)
    then have "0 < arctan (y / x)" by (simp add: zero_less_arctan_iff)
    with 3 b p show ?thesis by (simp add: arctan2_def; linarith)
  next
    case 4
    then have "arctan2 y x = pi / 2 \<or> arctan2 y x = - (pi / 2) \<or> arctan2 y x = 0"
      by (simp add: arctan2_def)
    then show ?thesis using p by (elim disjE) linarith+
  qed
qed

lemma wind_direction_range:
  "0 < arctan2 v u * 180 / pi + 180 \<and> arctan2 v u * 180 / pi + 180 \<le> 360"
proof -
  define t where "t = arctan2 v u / pi"
  have p: "0 < pi" by simp
  from arctan2_bounds [of v u] have "- pi < arctan2 v u" "arctan2 v u \<le> pi" by simp_all
  then have t: "- 1 < t" "t \<le> 1"
    using p by (simp_all add: t_def pos_less_divide_eq pos_divide_le_eq)
  have e: "arctan2 v u * 180 / pi = 180 * t" by (simp add: t_def)
  show ?thesis unfolding e using t by linarith
qed

lemma shift_nth:
  assumes "0 < num" and "i < length arr"
  shows "shift arr num v ! i = (if int i < num then v else arr ! (i - nat num))"
  using assms by (auto simp: shift_def Let_def nth_append)

lemma deaccumulate_nth:
  assumes "i < length xs"
  shows "deaccumulate other xs ! i =
    (if nan_gt (nan2 (-) (xs ! i) (shift xs 1 None ! i)) 0
     then nan1 (\<lambda>x. x / 3600) (nan2 (-) (xs ! i) (shift xs 1 None ! i)) else other)"
  using assms by (simp add: deaccumulate_def Let_def np_where_def)

lemma deaccumulate_first:
  assumes "xs \<noteq> []"
  shows "deaccumulate other xs ! 0 = other"
proof -
  from assms have l: "0 < length xs" by simp
  then have "shift xs 1 None ! 0 = None" by (simp add: shift_nth)
  with l show ?thesis
    by (simp add: deaccumulate_nth nan2_def nan_gt_def split: option.splits)
qed

lemma deaccumulate_later:
  assumes "1 \<le> i" and "i < length xs" and "xs ! i = Some a" and "xs ! (i - 1) = Some b"
  shows "deaccumulate other xs ! i = (if a - b > 0 then Some ((a - b) / 3600) else other)"
proof -
  from assms have "shift xs 1 None ! i = Some b" by (simp add: shift_nth)
  with assms show ?thesis
    by (simp add: deaccumulate_nth nan2_def nan_gt_def nan1_def)
qed

lemma pipe_cell:
  assumes "transformation_pipe df = Inr df'" and "i < length (rows df)"
  shows "getcol df' c ! i = (rows df' ! i) c"
  using assms(2) transformation_pipe_columns(1) [OF assms(1)] by simp

lemma celsius_cell:
  assumes "transformation_pipe df = Inr df'"
    and "i < length (rows df)"
    and "c = ''airTemperature'' \<or> c = ''dewAirTemperature'' \<or> c = ''soilTemperature''"
    and "(rows df ! i) c = Some K"
  shows "(rows df' ! i) c = Some (K - 273.15)"
proof -
  note cols = transformation_pipe_columns [OF assms(1)]
  from assms(3) have "getcol df' c = map (nan1 (\<lambda>k. k - 273.15)) (getcol df c)"
    using cols(4,5,6) by auto
  then have "getcol df' c ! i = map (nan1 (\<lambda>k. k - 273.15)) (getcol df c) ! i" by simp
  with assms(2,4) show ?thesis by (simp add: pipe_cell [OF assms(1,2)] nan1_def)
qed

lemma humidity_cell:
  assumes "transformation_pipe df = Inr df'"
    and "i < length (rows df)"
    and "(rows df' ! i) ''dewAirTemperature'' = Some td"
    and "(rows df' ! i) ''airTemperature'' = Some t"
  shows "(rows df' ! i) ''relativeHumidity'' =
      Some ((6.112 * exp (17.67 * td / (td + 243.5))) * 100 / (6.112 * exp (17.67 * t / (t + 243.5))))"
proof -
  note cols = transformation_pipe_columns [OF assms(1)]
  from assms(2) cols(1) have i': "i < length (rows df')" by simp
  have "getcol df' ''relativeHumidity'' ! i =
      map2 (nan2 (\<lambda>td t. (6.112 * exp (17.67 * td / (td + 243.5))) * 100 /
                                  (6.112 * exp (17.67 * t / (t + 243.5)))))
             (getcol df' ''dewAirTemperature'') (getcol df' ''airTemperature'') ! i"
    using cols(7) by simp
  with i' assms(3,4) show ?thesis
    by (simp add: nan2_def)
qed

lemma wind_cells:
  assumes "transformation_pipe df = Inr df'"
    and "i < length (rows df)"
    and "(rows df ! i) ''windSpeedEast'' = Some u"
    and "(rows df ! i) ''windSpeedNorth'' = Some v"
  shows "(rows df' ! i) ''windSpeed'' = Some (sqrt (u\<^sup>2 + v\<^sup>2))"
    and "(rows df' ! i) ''windDirection'' = Some (arctan2 v u * 180 / pi + 180)"
proof -
  note cols = transformation_pipe_columns [OF assms(1)]
  have "getcol df' ''windSpeed'' ! i = map2 (nan2 (\<lambda>u v. sqrt (u\<^sup>2 + v\<^sup>2)))
             (getcol df ''windSpeedEast'') (getcol df ''windSpeedNorth'') ! i"
    using cols(2) by simp
  with assms(2,3,4) show "(rows df' ! i) ''windSpeed'' = Some (sqrt (u\<^sup>2 + v\<^sup>2))"
    by (simp add: pipe_cell [OF assms(1,2)] nan2_def)
  have "getcol df' ''windDirection'' ! i = map2 (nan2 (\<lambda>v u. arctan2 v u * 180 / pi + 180))
             (getcol df ''windSpeedNorth'') (getcol df ''windSpeedEast'') ! i"
    using cols(3) by simp
  with assms(2,3,4) show "(rows df' ! i) ''windDirection'' = Some (arctan2 v u * 180 / pi + 180)"
    by (simp add: pipe_cell [OF assms(1,2)] nan2_def)
qed

lemma deaccumulated_cells:
  assumes "transformation_pipe df = Inr df'" and "i < length (rows df)"
  shows "(rows df' ! i) ''GHI'' = deaccumulate (Some 0) (getcol df ''GHI'') ! i"
    and "(rows df' ! i) ''totalPrecipitation'' = deaccumulate None (getcol df ''totalPrecipitation'') ! i"
  using transformation_pipe_columns(8,9) [OF assms(1)] pipe_cell [OF assms(1,2)]
  by metis+


subsection \<open>The claims about \<open>transformation_pipe\<close> and \<open>shift\<close>\<close>

text \<open>
  Claim C6. For a Kelvin value \<open>K\<close> in one of the columns airTemperature,
  dewAirTemperature and soilTemperature, \<open>transformation_pipe\<close> writes \<open>K - 273.15\<close>
  into the same cell.
\<close>
theorem kelvin_to_celsius:
  assumes "transformation_pipe df = Inr df'"
    and "i < length (rows df)"
    and "c = ''airTemperature'' \<or> c = ''dewAirTemperature'' \<or> c = ''soilTemperature''"
    and "(rows df ! i) c = Some K"
  shows "(rows df' ! i) c = Some (K - 273.15)"
  using assms by (rule celsius_cell)

text \<open>The three temperature columns of the sample frame.\<close>
theorem kelvin_to_celsius_witness:
  "\<exists>df'. transformation_pipe era5_sample = Inr df' \<and>
      (rows df' ! 0) ''airTemperature'' = Some (290 - 273.15) \<and>
      (rows df' ! 1) ''dewAirTemperature'' = Some (285 - 273.15) \<and>
      (rows df' ! 2) ''soilTemperature'' = Some (280 - 273.15)"
proof -
  from era5_sample_runs obtain df' where r: "transformation_pipe era5_sample = Inr df'" ..
  have "(rows df' ! 0) ''airTemperature'' = Some (290 - 273.15)"
    by (rule kelvin_to_celsius [OF r]) (simp_all add: era5_sample_def era5_row_def)
  moreover have "(rows df' ! 1) ''dewAirTemperature'' = Some (285 - 273.15)"
    by (rule kelvin_to_celsius [OF r]) (simp_all add: era5_sample_def era5_row_def)
  moreover have "(rows df' ! 2) ''soilTemperature'' = Some (280 - 273.15)"
    by (rule kelvin_to_celsius [OF r]) (simp_all add: era5_sample_def era5_row_def)
  ultimately show ?thesis using r by blast
qed

text \<open>
  Claim C7. The relative humidity of a row is computed from the temperatures the
  pipeline has already converted to Celsius, and it is the Magnus-form quotient
  \<open>100 * exp (17.67 * Td / (Td + 243.5)) / exp (17.67 * T / (T + 243.5))\<close>: the two factors
  6.112 of the source cancel.
\<close>
theorem relative_humidity_magnus:
  assumes "transformation_pipe df = Inr df'"
    and "i < length (rows df)"
    and "(rows df ! i) ''dewAirTemperature'' = Some Kd"
    and "(rows df ! i) ''airTemperature'' = Some Ka"
  shows "(rows df' ! i) ''dewAirTemperature'' = Some (Kd - 273.15) \<and>
         (rows df' ! i) ''airTemperature'' = Some (Ka - 273.15) \<and>
         (rows df' ! i) ''relativeHumidity'' =
            Some (100 * exp (17.67 * (Kd - 273.15) / ((Kd - 273.15) + 243.5)) /
                        exp (17.67 * (Ka - 273.15) / ((Ka - 273.15) + 243.5)))"
proof -
  have td: "(rows df' ! i) ''dewAirTemperature'' = Some (Kd - 273.15)"
    using assms by (intro celsius_cell [OF assms(1)]) simp_all
  have ta: "(rows df' ! i) ''airTemperature'' = Some (Ka - 273.15)"
    using assms by (intro celsius_cell [OF assms(1)]) simp_all
  from humidity_cell [OF assms(1,2) td ta] td ta show ?thesis by simp
qed

text \<open>The first row of the sample frame: dewpoint 285 K, temperature 290 K.\<close>
theorem relative_humidity_magnus_witness:
  "\<exists>df'. transformation_pipe era5_sample = Inr df' \<and>
      (rows df' ! 0) ''dewAirTemperature'' = Some (285 - 273.15) \<and>
      (rows df' ! 0) ''airTemperature'' = Some (290 - 273.15) \<and>
      (rows df' ! 0) ''relativeHumidity'' =
         Some (100 * exp (17.67 * (285 - 273.15) / ((285 - 273.15) + 243.5)) /
                     exp (17.67 * (290 - 273.15) / ((290 - 273.15) + 243.5)))"
proof -
  from era5_sample_runs obtain df' where r: "transformation_pipe era5_sample = Inr df'" ..
  have "0 < length (rows era5_sample)"
    "(rows era5_sample ! 0) ''dewAirTemperature'' = Some 285"
    "(rows era5_sample ! 0) ''airTemperature'' = Some 290"
    by (simp_all add: era5_sample_def era5_row_def)
  from relative_humidity_magnus [OF r this] r show ?thesis by blast
qed

text \<open>
  Claim C3, amended. For a wind vector \<open>(u, v)\<close> the wind speed is \<open>sqrt (u\<^sup>2 + v\<^sup>2)\<close>,
  which is not negative, and the wind direction is \<open>arctan2 v u\<close> in degrees plus 180,
  which lies in the closed interval from 0 to 360: the upper end is reached.
\<close>
theorem wind_speed_direction:
  assumes "transformation_pipe df = Inr df'"
    and "i < length (rows df)"
    and "(rows df ! i) ''windSpeedEast'' = Some u"
    and "(rows df ! i) ''windSpeedNorth'' = Some v"
  shows "(rows df' ! i) ''windSpeed'' = Some (sqrt (u\<^sup>2 + v\<^sup>2)) \<and>
         0 \<le> sqrt (u\<^sup>2 + v\<^sup>2) \<and>
         (rows df' ! i) ''windDirection'' = Some (arctan2 v u * 180 / pi + 180) \<and>
         0 \<le> arctan2 v u * 180 / pi + 180 \<and> arctan2 v u * 180 / pi + 180 \<le> 360"
  using wind_cells [OF assms] wind_direction_range [of v u] by simp

text \<open>The second row of the sample frame: the wind vector \<open>(3, 4)\<close>.\<close>
theorem wind_speed_direction_witness:
  "\<exists>df'. transformation_pipe era5_sample = Inr df' \<and>
      (rows df' ! 1) ''windSpeed'' = Some (sqrt (3\<^sup>2 + 4\<^sup>2)) \<and>
      (0::real) \<le> sqrt (3\<^sup>2 + 4\<^sup>2) \<and>
      (rows df' ! 1) ''windDirection'' = Some (arctan2 4 3 * 180 / pi + 180) \<and>
      0 \<le> arctan2 4 3 * 180 / pi + 180 \<and> arctan2 4 3 * 180 / pi + 180 \<le> 360"
proof -
  from era5_sample_runs obtain df' where r: "transformation_pipe era5_sample = Inr df'" ..
  have "1 < length (rows era5_sample)"
    "(rows era5_sample ! 1) ''windSpeedEast'' = Some 3"
    "(rows era5_sample ! 1) ''windSpeedNorth'' = Some 4"
    by (simp_all add: era5_sample_def era5_row_def)
  from wind_speed_direction [OF r this] r show ?thesis by blast
qed

text \<open>
  The wind vector \<open>(- 1, 0)\<close> of the first sample row has \<open>arctan2 0 (- 1) = pi\<close>, so its
  direction is 360, outside the half-open interval the claim C3 states.
\<close>
theorem wind_direction_360_counterexample:
  "\<exists>df'. transformation_pipe era5_sample = Inr df' \<and>
      (rows era5_sample ! 0) ''windSpeedEast'' = Some (- 1) \<and>
      (rows era5_sample ! 0) ''windSpeedNorth'' = Some 0 \<and>
      (rows df' ! 0) ''windDirection'' = Some 360 \<and> \<not> ((360::real) < 360)"
proof -
  from era5_sample_runs obtain df' where r: "transformation_pipe era5_sample = Inr df'" ..
  have h: "0 < length (rows era5_sample)"
    "(rows era5_sample ! 0) ''windSpeedEast'' = Some (- 1)"
    "(rows era5_sample ! 0) ''windSpeedNorth'' = Some 0"
    by (simp_all add: era5_sample_def era5_row_def)
  have "arctan2 0 (- 1) = pi" by (simp add: arctan2_def)
  then have "arctan2 0 (- 1) * 180 / pi + 180 = 360" by simp
  with wind_cells(2) [OF r h] h r show ?thesis by auto
qed

text \<open>
  Claim C2, amended. At a position \<open>i \<ge> 1\<close> the de-accumulated value is the difference
  with the previous hourly value divided by 3600 when that difference is positive;
  when it is zero or negative the value is 0 for GHI and NaN for totalPrecipitation.
\<close>
theorem deaccumulation:
  assumes "transformation_pipe df = Inr df'"
    and "1 \<le> i" and "i < length (rows df)"
    and "(rows df ! i) ''GHI'' = Some a" and "(rows df ! (i - 1)) ''GHI'' = Some b"
    and "(rows df ! i) ''totalPrecipitation'' = Some p"
    and "(rows df ! (i - 1)) ''totalPrecipitation'' = Some q"
  shows "(rows df' ! i) ''GHI'' = Some (if a - b > 0 then (a - b) / 3600 else 0) \<and>
         (rows df' ! i) ''totalPrecipitation'' = (if p - q > 0 then Some ((p - q) / 3600) else None)"
proof -
  from assms(2,3) have j: "i - 1 < length (rows df)" by simp
  have "deaccumulate (Some 0) (getcol df ''GHI'') ! i = (if a - b > 0 then Some ((a - b) / 3600) else Some 0)"
    using assms(2-5) j by (intro deaccumulate_later) simp_all
  moreover have "deaccumulate None (getcol df ''totalPrecipitation'') ! i =
      (if p - q > 0 then Some ((p - q) / 3600) else None)"
    using assms(2,3,6,7) j by (intro deaccumulate_later) simp_all
  ultimately show ?thesis
    using deaccumulated_cells [OF assms(1,3)] by simp
qed

text \<open>
  The third row of the sample frame: the radiation falls from 10800 to 3600 and the
  precipitation rises from 5 to 6.
\<close>
theorem deaccumulation_witness:
  "\<exists>df'. transformation_pipe era5_sample = Inr df' \<and>
      (rows df' ! 2) ''GHI'' = Some 0 \<and>
      (rows df' ! 2) ''totalPrecipitation'' = Some (1 / 3600)"
proof -
  from era5_sample_runs obtain df' where r: "transformation_pipe era5_sample = Inr df'" ..
  have "(1::nat) \<le> 2" "2 < length (rows era5_sample)"
    "(rows era5_sample ! 2) ''GHI'' = Some 3600" "(rows era5_sample ! (2 - 1)) ''GHI'' = Some 10800"
    "(rows era5_sample ! 2) ''totalPrecipitation'' = Some 6"
    "(rows era5_sample ! (2 - 1)) ''totalPrecipitation'' = Some 5"
    by (simp_all add: era5_sample_def era5_row_def)
  from deaccumulation [OF r this] r show ?thesis by auto
qed

text \<open>
  In the second row of the sample frame the precipitation stays at 5. The difference 0
  is not negative, and the result is NaN, not \<open>0 / 3600\<close> as the claim C2 states.
\<close>
theorem precipitation_zero_difference_counterexample:
  "\<exists>df'. transformation_pipe era5_sample = Inr df' \<and>
      (rows era5_sample ! 1) ''totalPrecipitation'' = Some 5 \<and>
      (rows era5_sample ! 0) ''totalPrecipitation'' = Some 5 \<and>
      (0::real) \<le> 5 - 5 \<and>
      (rows df' ! 1) ''totalPrecipitation'' = None \<and>
      (rows df' ! 1) ''totalPrecipitation'' \<noteq> Some ((5 - 5) / 3600)"
proof -
  from era5_sample_runs obtain df' where r: "transformation_pipe era5_sample = Inr df'" ..
  have h: "1 < length (rows era5_sample)"
    "(rows era5_sample ! 1) ''totalPrecipitation'' = Some 5"
    "(rows era5_sample ! 0) ''totalPrecipitation'' = Some 5"
    by (simp_all add: era5_sample_def era5_row_def)
  have "deaccumulate None (getcol era5_sample ''totalPrecipitation'') ! 1 =
      (if (5::real) - 5 > 0 then Some ((5 - 5) / 3600) else None)"
    by (rule deaccumulate_later) (simp_all add: era5_sample_def era5_row_def getcol_def)
  with deaccumulated_cells(2) [OF r h(1)] have "(rows df' ! 1) ''totalPrecipitation'' = None"
    by simp
  with h r show ?thesis by simp
qed

text \<open>
  Claim C10. The first row of a frame has no previous value: whatever the cumulative
  values are, its GHI is 0 and its totalPrecipitation is NaN after
  \<open>transformation_pipe\<close>. In general \<open>shift arr num fill_value\<close> with \<open>num > 0\<close> keeps the
  length, holds \<open>fill_value\<close> at the positions below \<open>num\<close>, and \<open>arr ! (i - num)\<close> at every
  position \<open>i\<close> from \<open>num\<close> on.
\<close>
theorem first_row_and_shift:
  "(transformation_pipe df = Inr df' \<longrightarrow> rows df \<noteq> [] \<longrightarrow>
      (rows df' ! 0) ''GHI'' = Some 0 \<and> (rows df' ! 0) ''totalPrecipitation'' = None) \<and>
   (0 < num \<longrightarrow> i < length arr \<longrightarrow>
      length (shift arr num fill_value) = length arr \<and>
      shift arr num fill_value ! i = (if int i < num then fill_value else arr ! (i - nat num)))"
proof (intro conjI impI)
  assume r: "transformation_pipe df = Inr df'" and ne: "rows df \<noteq> []"
  then have l: "0 < length (rows df)" by simp
  from ne have g: "getcol df ''GHI'' \<noteq> []" "getcol df ''totalPrecipitation'' \<noteq> []"
    by (simp_all add: getcol_def)
  show "(rows df' ! 0) ''GHI'' = Some 0"
    using deaccumulated_cells(1) [OF r l] deaccumulate_first [OF g(1)] by simp
  show "(rows df' ! 0) ''totalPrecipitation'' = None"
    using deaccumulated_cells(2) [OF r l] deaccumulate_first [OF g(2)] by simp
next
  show "length (shift arr num fill_value) = length arr" by simp
next
  assume "0 < num" "i < length arr"
  then show "shift arr num fill_value ! i = (if int i < num then fill_value else arr ! (i - nat num))"
    by (rule shift_nth)
qed

text \<open>The sample frame, and a shift by two of a list of three.\<close>
theorem first_row_and_shift_witness:
  "\<exists>df'. transformation_pipe era5_sample = Inr df' \<and> rows era5_sample \<noteq> [] \<and>
      (rows df' ! 0) ''GHI'' = Some 0 \<and> (rows df' ! 0) ''totalPrecipitation'' = None \<and>
      shift [10, 20, 30 :: int] 2 0 = [0, 0, 10] \<and>
      shift [10, 20, 30 :: int] 2 0 ! 2 = [10, 20, 30] ! (2 - nat 2)"
proof -
  from era5_sample_runs obtain df' where r: "transformation_pipe era5_sample = Inr df'" ..
  have ne: "rows era5_sample \<noteq> []" by (simp add: era5_sample_def)
  have s: "shift [10, 20, 30 :: int] 2 0 = [0, 0, 10]" by (simp add: shift_def)
  from first_row_and_shift [of era5_sample df' 2 2 "[10, 20, 30 :: int]" 0] r ne s
  show ?thesis by auto
qed


section \<open>Properties of the MeteoGalicia client\<close>

subsection \<open>The daily fetch and the forecast collection\<close>

lemma attempt_trace:
  assumes "attempt env la lo day r st = (res, st')"
  shows "map fst (attempts st') = map fst (attempts st) @ [r]" and "logged st' = logged st"
  using assms
  by (auto simp: attempt_def Let_def split: prod.splits sum.splits if_splits)

lemma map_result_length:
  "map_result f xs = Inr ys \<Longrightarrow> length ys = length xs"
  by (induction xs arbitrary: ys) (auto split: sum.splits)

lemma attempt_frame:
  assumes "attempt env la lo day r st = (Inr f, st')"
  shows "\<exists>ps. ps \<noteq> [] \<and> f = solar_frame ps"
proof -
  from assms obtain raw ps where "raw \<noteq> []" "map_result (parse_row env) raw = Inr ps" "f = solar_frame ps"
    by (auto simp: attempt_def Let_def split: prod.splits sum.splits if_splits)
  moreover from this have "ps \<noteq> []" by (auto dest: map_result_length)
  ultimately show ?thesis by blast
qed

lemma try_resolutions_trace:
  assumes "try_resolutions env la lo day rs st = (f, st')"
  shows "\<exists>k\<le>length rs. map fst (attempts st') = map fst (attempts st) @ take k rs \<and>
     (f = empty_frame \<and> k = length rs \<and> length (logged st') = length (logged st) + k \<or>
      0 < k \<and> length (logged st') + 1 = length (logged st) + k \<and>
        (\<exists>s. attempt env la lo day (rs ! (k - 1)) s = (Inr f, st')))"
  using assms
proof (induction rs arbitrary: st)
  case Nil
  then show ?case by auto
next
  case (Cons r rs)
  obtain res s1 where a: "attempt env la lo day r st = (res, s1)" by (cases "attempt env la lo day r st")
  note t = attempt_trace [OF a]
  show ?case
  proof (cases res)
    case (Inr g)
    with Cons.prems a have "f = g" "st' = s1" by simp_all
    with a Inr t have "map fst (attempts st') = map fst (attempts st) @ take 1 (r # rs)"
      "length (logged st') + 1 = length (logged st) + 1"
      "attempt env la lo day ((r # rs) ! (1 - 1)) st = (Inr f, st')" by simp_all
    then show ?thesis by (intro exI [of _ 1]) auto
  next
    case (Inl e)
    with Cons.prems a have "try_resolutions env la lo day rs (s1\<lparr>logged := logged s1 @ [e]\<rparr>) = (f, st')"
      by simp
    from Cons.IH [OF this] obtain k where k: "k \<le> length rs"
      "map fst (attempts st') = map fst (attempts (s1\<lparr>logged := logged s1 @ [e]\<rparr>)) @ take k rs"
      "f = empty_frame \<and> k = length rs \<and>
         length (logged st') = length (logged (s1\<lparr>logged := logged s1 @ [e]\<rparr>)) + k \<or>
       0 < k \<and> length (logged st') + 1 = length (logged (s1\<lparr>logged := logged s1 @ [e]\<rparr>)) + k \<and>
        (\<exists>s. attempt env la lo day (rs ! (k - 1)) s = (Inr f, st'))"
      by blast
    from k(2) t have tr: "map fst (attempts st') = map fst (attempts st) @ take (Suc k) (r # rs)" by simp
    from k(3) t have "f = empty_frame \<and> Suc k = length (r # rs) \<and>
         length (logged st') = length (logged st) + Suc k \<or>
       0 < Suc k \<and> length (logged st') + 1 = length (logged st) + Suc k \<and>
        (\<exists>s. attempt env la lo day ((r # rs) ! (Suc k - 1)) s = (Inr f, st'))"
      by (cases k) auto
    with tr k(1) show ?thesis by (intro exI [of _ "Suc k"]) simp
  qed
qed

lemma day_frame_shape:
  assumes "try_resolutions env la lo day rs st = (f, st')"
  shows "f = empty_frame \<or> (\<exists>ps. ps \<noteq> [] \<and> f = solar_frame ps)"
  using try_resolutions_trace [OF assms] attempt_frame by blast





lemma sample_day_fetch:
  "get_historic_data_day sample_provider 42 (- 8) sample_day session0 =
     (solar_frame [(900, Some 1), (1000, Some 2), (4600, Some 3), (4600, Some 4)],
      \<lparr>world = 3,
       attempts = [((4, 2), Operational 4 2 0 0 (- 8) 42), ((12, 2), Operational 12 2 0 0 (- 8) 42),
                   ((12, 1), Operational 12 1 0 0 (- 8) 42)],
       logged = [ProviderError ''connection refused'',
                 ProviderError ''Location out of the bounding box, trying with another resolution...'']\<rparr>)"
  by (simp add: get_historic_data_day_def resolutions_def attempt_def url_mg_def sample_provider_def
      session0_def sample_day_def Let_def)


lemma rows_set_scalar: "rows (set_scalar df c v) = map (\<lambda>r. r(c := Some v)) (rows df)"
  by (rule nth_equalityI) (simp_all add: set_scalar_def set_col_def)

lemma columns_set_scalar:
  "columns (set_scalar df c v) = (if c \<in> set (columns df) then columns df else columns df @ [c])"
  by (simp add: set_scalar_def set_col_def)

lemma query_ge_rows:
  assumes "query_ge df c lo = Inr f" and "r \<in> set (rows f)"
  shows "r \<in> set (rows df)" and "\<exists>t. r c = Some t \<and> lo \<le> t"
  using assms by (auto simp: query_ge_def split: if_splits option.splits)

lemma forecast_rows:
  assumes "collect_forecasting env latitude longitude now st = (Inr f, st')"
    and "r \<in> set (rows f)"
  shows "r ''forecasting_timestamp'' = Some (of_int (py_int (epoch now)))"
    and "\<exists>t. r ''timestamp'' = Some t \<and> of_int (py_int (epoch now)) \<le> t"
    and "r ''latitude'' = Some latitude" and "r ''longitude'' = Some longitude"
proof -
  obtain d s1 where g: "get_historic_data_day env latitude longitude now st = (d, s1)"
    by (cases "get_historic_data_day env latitude longitude now st")
  define d4 where "d4 = set_scalar (set_scalar (set_scalar (rename_column d ''ts'' ''timestamp'')
      ''latitude'' latitude) ''longitude'' longitude) ''forecasting_timestamp'' (of_int (py_int (epoch now)))"
  from assms(1) g have q: "query_ge d4 ''timestamp'' (of_int (py_int (epoch now))) = Inr f"
    by (simp add: collect_forecasting_def Let_def d4_def)
  from query_ge_rows [OF q assms(2)] have m: "r \<in> set (rows d4)"
    and t: "\<exists>t. r ''timestamp'' = Some t \<and> of_int (py_int (epoch now)) \<le> t" by simp_all
  from t show "\<exists>t. r ''timestamp'' = Some t \<and> of_int (py_int (epoch now)) \<le> t" .
  from m show "r ''forecasting_timestamp'' = Some (of_int (py_int (epoch now)))"
    by (auto simp: d4_def rows_set_scalar)
  from m show "r ''latitude'' = Some latitude"
    by (auto simp: d4_def rows_set_scalar)
  from m show "r ''longitude'' = Some longitude"
    by (auto simp: d4_def rows_set_scalar)
qed

text \<open>
  Claim C4. Every row that \<open>_collect_forecasting\<close> returns has forecasting_timestamp
  equal to the epoch second of \<open>now\<close> and a timestamp not below it.
\<close>
theorem forecast_stamped_and_filtered:
  assumes "collect_forecasting env latitude longitude now st = (Inr f, st')"
  shows "\<forall>r\<in>set (rows f).
           r ''forecasting_timestamp'' = Some (of_int (py_int (epoch now))) \<and>
           (\<exists>t. r ''timestamp'' = Some t \<and> of_int (py_int (epoch now)) \<le> t)"
  using forecast_rows(1,2) [OF assms] by blast

lemma sample_forecast:
  "\<exists>f st'. collect_forecasting sample_provider 42 (- 8) sample_day session0 = (Inr f, st') \<and>
      map (\<lambda>r. (r ''timestamp'', r ''forecasting_timestamp'')) (rows f) =
        [(Some 1000, Some 1000), (Some 4600, Some 1000), (Some 4600, Some 1000)]"
proof -
  have ep: "py_int (epoch sample_day) = 1000" by (simp add: sample_day_def py_int_def)
  show ?thesis
    by (simp add: collect_forecasting_def sample_day_fetch Let_def solar_frame_def solar_row_def
      rename_column_def set_scalar_def set_col_def query_ge_def ep)
qed

text \<open>
  The sample provider at the instant 1000.5: the row of second 900 is filtered out, the
  three others are stamped with 1000.
\<close>
theorem forecast_stamped_and_filtered_witness:
  "\<exists>f st'. collect_forecasting sample_provider 42 (- 8) sample_day session0 = (Inr f, st') \<and>
      map (\<lambda>r. (r ''timestamp'', r ''forecasting_timestamp'')) (rows f) =
        [(Some 1000, Some 1000), (Some 4600, Some 1000), (Some 4600, Some 1000)] \<and>
      (\<forall>r\<in>set (rows f).
           r ''forecasting_timestamp'' = Some (of_int (py_int (epoch sample_day))) \<and>
           (\<exists>t. r ''timestamp'' = Some t \<and> of_int (py_int (epoch sample_day)) \<le> t))"
proof -
  from sample_forecast obtain f st' where
    e: "collect_forecasting sample_provider 42 (- 8) sample_day session0 = (Inr f, st')"
    and m: "map (\<lambda>r. (r ''timestamp'', r ''forecasting_timestamp'')) (rows f) =
        [(Some 1000, Some 1000), (Some 4600, Some 1000), (Some 4600, Some 1000)]"
    by (elim exE conjE)
  from forecast_stamped_and_filtered [OF e] e m show ?thesis by (intro exI conjI)
qed


subsection \<open>The historical gap fetch\<close>

lemma day_frame_columns:
  assumes "get_historic_data_day env la lo day st = (f, st')"
  shows "columns f = [] \<or> columns f = [''ts'', ''GHI'']"
  using day_frame_shape [of env la lo day resolutions st f st'] assms
  by (auto simp: get_historic_data_day_def empty_frame_def solar_frame_def)

lemma concat_solar_columns:
  assumes "columns a = [] \<or> columns a = [''ts'', ''GHI'']"
    and "columns b = [] \<or> columns b = [''ts'', ''GHI'']"
  shows "columns (concat_frames a b) = [] \<or> columns (concat_frames a b) = [''ts'', ''GHI'']"
  using assms by (auto simp: concat_frames_def)

lemma fetch_days_columns:
  assumes "fetch_days env tz la lo ds acc st = (f, st')"
    and "columns acc = [] \<or> columns acc = [''ts'', ''GHI'']"
  shows "columns f = [] \<or> columns f = [''ts'', ''GHI'']"
  using assms
proof (induction ds arbitrary: acc st)
  case Nil
  then show ?case by simp
next
  case (Cons d ds)
  obtain g s1 where g: "get_historic_data_day env la lo \<lparr>ordinal = d, epoch = tz d\<rparr> st = (g, s1)"
    by (cases "get_historic_data_day env la lo \<lparr>ordinal = d, epoch = tz d\<rparr> st")
  with Cons.prems(1) have "fetch_days env tz la lo ds (concat_frames acc g) s1 = (f, st')" by simp
  moreover have "columns (concat_frames acc g) = [] \<or> columns (concat_frames acc g) = [''ts'', ''GHI'']"
    using Cons.prems(2) day_frame_columns [OF g] by (rule concat_solar_columns)
  ultimately show ?case by (rule Cons.IH)
qed

lemma count_list_insort_key:
  "count_list (insort_key k x xs) r = count_list (x # xs) r"
  by (induction xs) auto

lemma count_list_sort_key: "count_list (sort_key k xs) r = count_list xs r"
  by (induction xs) (simp_all add: count_list_insort_key)

lemma sorts_by_key_sort_key: "sorts_by_key sort_key"
  by (simp add: sorts_by_key_def count_list_sort_key)

lemma sorts_by_key_set:
  assumes "sorts_by_key sorter"
  shows "set (sorter k xs) = set xs"
proof -
  have "r \<in> set (sorter k xs) \<longleftrightarrow> r \<in> set xs" for r
  proof -
    from assms have "count_list (sorter k xs) r = count_list xs r"
      by (simp add: sorts_by_key_def)
    then have "count_list (sorter k xs) r = 0 \<longleftrightarrow> count_list xs r = 0" by simp
    then show ?thesis by (simp only: count_list_0_iff) blast
  qed
  then show ?thesis by blast
qed

lemma sort_values_Inr:
  assumes "sort_values sorter df c = Inr f" and "sorts_by_key sorter"
  shows "c \<in> set (columns df)" and "columns f = columns df"
    and "set (rows f) = set (rows df)" and "sorted (map (nan_last c) (rows f))"
    and "rows f = sorter (nan_last c) (rows df)"
proof -
  from assms(1) have c: "c \<in> set (columns df)" and f: "f = df\<lparr>rows := sorter (nan_last c) (rows df)\<rparr>"
    by (auto simp: sort_values_def split: if_splits)
  from c show "c \<in> set (columns df)" .
  from f show "columns f = columns df" by simp
  from f show "rows f = sorter (nan_last c) (rows df)" by simp
  from f sorts_by_key_set [OF assms(2)] show "set (rows f) = set (rows df)" by simp
  from f assms(2) show "sorted (map (nan_last c) (rows f))" by (simp add: sorts_by_key_def)
qed

lemma query_between_Inr:
  assumes "query_between df c lo hi = Inr f"
  shows "columns f = columns df"
    and "\<And>r. r \<in> set (rows f) \<Longrightarrow> r \<in> set (rows df) \<and> (\<exists>t. r c = Some t \<and> lo \<le> t \<and> t \<le> hi)"
  using assms by (auto simp: query_between_def split: if_splits option.splits)

lemma fetch_gaps_invariant:
  assumes "fetch_gaps env sorter tz la lo gaps acc st = (Inr m, st')"
    and "columns acc = [] \<or> columns acc = [''ts'', ''GHI'']"
    and "sorts_by_key sorter"
  shows "(columns m = [] \<or> columns m = [''ts'', ''GHI'']) \<and>
         (\<forall>r\<in>set (rows m). r \<in> set (rows acc) \<or>
           (\<exists>t. r ''ts'' = Some t \<and>
              (\<exists>(a, b)\<in>set gaps. tz (ordinal a) \<le> t \<and> t \<le> tz (ordinal b) + 23 * 3600)))"
  using assms(1,2)
proof (induction gaps arbitrary: acc st)
  case Nil
  then show ?case by simp
next
  case (Cons gap gaps)
  obtain a b where gap: "gap = (a, b)" by (cases gap)
  define d_loop where
    "d_loop = (if 86400 * real_of_int (ordinal a) + 3600 > tz (ordinal a) then ordinal a - 1 else ordinal a)"
  obtain dp s1 where fd: "fetch_days env tz la lo [d_loop..ordinal b] empty_frame st = (dp, s1)"
    by (cases "fetch_days env tz la lo [d_loop..ordinal b] empty_frame st")
  have dpc: "columns dp = [] \<or> columns dp = [''ts'', ''GHI'']"
    by (rule fetch_days_columns [OF fd]) (simp add: empty_frame_def)
  from Cons.prems(1) obtain dq where
    q: "and_then (sort_values sorter dp ''ts'')
          (\<lambda>x. query_between x ''ts'' (tz (ordinal a)) (tz (ordinal b) + 23 * 3600)) = Inr dq"
    and rest: "fetch_gaps env sorter tz la lo gaps (concat_frames acc dq) s1 = (Inr m, st')"
    using fd by (auto simp: gap d_loop_def Let_def split: sum.splits)
  from and_then_Inr [OF q] obtain ds where
    sv: "sort_values sorter dp ''ts'' = Inr ds"
    and qb: "query_between ds ''ts'' (tz (ordinal a)) (tz (ordinal b) + 23 * 3600) = Inr dq"
    by blast
  have "columns dq = columns dp"
    using sort_values_Inr(2) [OF sv assms(3)] query_between_Inr(1) [OF qb] by simp
  with dpc have dqc: "columns dq = [] \<or> columns dq = [''ts'', ''GHI'']" by simp
  have dqr: "\<forall>r\<in>set (rows dq). \<exists>t. r ''ts'' = Some t \<and> tz (ordinal a) \<le> t \<and> t \<le> tz (ordinal b) + 23 * 3600"
    using query_between_Inr(2) [OF qb] by blast
  have ih: "(columns m = [] \<or> columns m = [''ts'', ''GHI'']) \<and>
         (\<forall>r\<in>set (rows m). r \<in> set (rows (concat_frames acc dq)) \<or>
           (\<exists>t. r ''ts'' = Some t \<and>
              (\<exists>(a, b)\<in>set gaps. tz (ordinal a) \<le> t \<and> t \<le> tz (ordinal b) + 23 * 3600)))"
    by (rule Cons.IH [OF rest concat_solar_columns [OF Cons.prems(2) dqc]])
  have "r \<in> set (rows acc) \<or>
           (\<exists>t. r ''ts'' = Some t \<and>
              (\<exists>(a, b)\<in>set (gap # gaps). tz (ordinal a) \<le> t \<and> t \<le> tz (ordinal b) + 23 * 3600))"
    if "r \<in> set (rows m)" for r
  proof -
    from ih that consider "r \<in> set (rows acc)" | "r \<in> set (rows dq)"
      | "\<exists>t. r ''ts'' = Some t \<and>
           (\<exists>(a, b)\<in>set gaps. tz (ordinal a) \<le> t \<and> t \<le> tz (ordinal b) + 23 * 3600)"
      by (auto simp: concat_frames_def)
    then show ?thesis
    proof cases
      case 1
      then show ?thesis by simp
    next
      case 2
      with dqr show ?thesis by (auto simp: gap)
    next
      case 3
      then show ?thesis by auto
    qed
  qed
  with ih show ?case by blast
qed

lemma set_drop_seen: "set (drop_seen key seen xs) \<subseteq> set xs"
  by (induction xs arbitrary: seen) auto

lemma drop_seen_fresh: "x \<in> set (drop_seen key seen xs) \<Longrightarrow> key x \<notin> set seen"
proof (induction xs arbitrary: seen)
  case Nil
  then show ?case by simp
next
  case (Cons a xs)
  show ?case
  proof (cases "key a \<in> set seen")
    case True
    with Cons.prems have "x \<in> set (drop_seen key seen xs)" by simp
    then show ?thesis by (rule Cons.IH)
  next
    case False
    with Cons.prems consider "x = a" | "x \<in> set (drop_seen key (key a # seen) xs)" by auto
    then show ?thesis
    proof cases
      case 1
      with False show ?thesis by simp
    next
      case 2
      from Cons.IH [OF 2] show ?thesis by simp
    qed
  qed
qed

lemma distinct_drop_seen: "distinct (map key (drop_seen key seen xs))"
proof (induction xs arbitrary: seen)
  case Nil
  then show ?case by simp
next
  case (Cons a xs)
  have "key a \<notin> key ` set (drop_seen key (key a # seen) xs)"
    using drop_seen_fresh [of _ key "key a # seen" xs] by fastforce
  with Cons.IH show ?case by simp
qed

lemma sorted_drop_seen:
  "sorted (map k xs) \<Longrightarrow> sorted (map k (drop_seen key seen xs))"
proof (induction xs arbitrary: seen)
  case Nil
  then show ?case by simp
next
  case (Cons x xs)
  from Cons.prems have s: "sorted (map k xs)" and le: "\<forall>y\<in>set xs. k x \<le> k y" by simp_all
  from le set_drop_seen [of key "key x # seen" xs]
  have "\<forall>y\<in>set (drop_seen key (key x # seen) xs). k x \<le> k y" by blast
  with Cons.IH [OF s] show ?case by simp
qed

lemma distinct_map_coarser:
  assumes "distinct (map f xs)" and "\<And>x y. g x = g y \<Longrightarrow> f x = f y"
  shows "distinct (map g xs)"
  using assms(1)
proof (induction xs)
  case Nil
  then show ?case by simp
next
  case (Cons x xs)
  then have n: "f x \<notin> f ` set xs" and d: "distinct (map g xs)" by simp_all
  have "g x \<notin> g ` set xs"
  proof
    assume "g x \<in> g ` set xs"
    then obtain y where "y \<in> set xs" "g x = g y" by blast
    with assms(2) [of x y] n show False by (simp add: image_iff) metis
  qed
  with d show ?case by simp
qed

lemma sorted_nan_last:
  assumes "sorted (map (nan_last c) xs)" and "\<forall>r\<in>set xs. \<exists>t. r c = Some t"
  shows "sorted (map (\<lambda>r. the (r c)) xs)"
proof -
  have mono: "the (r c) \<le> the (r' c)"
    if "r \<in> set xs" "r' \<in> set xs" "nan_last c r \<le> nan_last c r'" for r r'
  proof -
    from that(1,2) assms(2) obtain t t' where "r c = Some t" "r' c = Some t'" by blast
    with that(3) show ?thesis by (simp add: nan_last_def)
  qed
  have "sorted_wrt (\<lambda>r r'. nan_last c r \<le> nan_last c r') xs"
    using assms(1) by (simp add: sorted_map)
  then have "sorted_wrt (\<lambda>r r'. the (r c) \<le> the (r' c)) xs"
    by (rule sorted_wrt_mono_rel [rotated]) (rule mono)
  then show ?thesis by (simp add: sorted_map)
qed

lemma drop_duplicates_Inr:
  assumes "drop_duplicates df keys = Inr f"
  shows "columns f = columns df" and "rows f = drop_seen (\<lambda>r. map r keys) [] (rows df)"
  using assms by (auto simp: drop_duplicates_def split: list.splits)

lemma index_then_sorted_Inr:
  assumes "index_then_sorted df keys = Inr f"
  shows "rows f = rows df"
    and "columns f = keys @ sort (filter (\<lambda>c. c \<notin> set keys) (columns df))"
  using assms by (auto simp: index_then_sorted_def split: list.splits)

lemma historical_rows:
  assumes "get_historical_data_source env sorter tz la lo gaps st = (Inr f, st')"
    and "sorts_by_key sorter"
  shows "\<exists>m::frame. columns m = [''ts'', ''GHI''] \<and>
           (\<forall>r\<in>set (rows m). \<exists>t. r ''ts'' = Some t \<and>
               (\<exists>(a, b)\<in>set gaps. tz (ordinal a) \<le> t \<and> t \<le> tz (ordinal b) + 23 * 3600)) \<and>
           rows f = drop_seen (\<lambda>r. map r [''latitude'', ''longitude'', ''ts'']) []
              (map (\<lambda>r. r(''longitude'' := Some lo))
                 (map (\<lambda>r. r(''latitude'' := Some la)) (sorter (nan_last ''ts'') (rows m)))) \<and>
           columns f = (if rows f = [] then columns m @ [''latitude'', ''longitude'']
                        else key_cols @ sort (filter (\<lambda>c. c \<notin> set key_cols)
                               (columns m @ [''latitude'', ''longitude''])))"
proof -
  from assms(1) obtain m where fg: "fetch_gaps env sorter tz la lo gaps empty_frame st = (Inr m, st')"
    and fin: "and_then (sort_values sorter m ''ts'') (\<lambda>x.
           and_then (drop_duplicates (set_scalar (set_scalar x ''latitude'' la) ''longitude'' lo)
                      [''latitude'', ''longitude'', ''ts'']) (\<lambda>y.
           if \<not> is_empty y then index_then_sorted y key_cols else Inr y)) = Inr f"
    by (auto simp: get_historical_data_source_def split: prod.splits sum.splits)
  from fetch_gaps_invariant [OF fg _ assms(2)] have mc: "columns m = [] \<or> columns m = [''ts'', ''GHI'']"
    and mr: "\<forall>r\<in>set (rows m). \<exists>t. r ''ts'' = Some t \<and>
               (\<exists>(a, b)\<in>set gaps. tz (ordinal a) \<le> t \<and> t \<le> tz (ordinal b) + 23 * 3600)"
    by (auto simp: empty_frame_def)
  from and_then_Inr [OF fin] obtain m1 where sv: "sort_values sorter m ''ts'' = Inr m1"
    and fin2: "and_then (drop_duplicates (set_scalar (set_scalar m1 ''latitude'' la) ''longitude'' lo)
                      [''latitude'', ''longitude'', ''ts'']) (\<lambda>y.
           if \<not> is_empty y then index_then_sorted y key_cols else Inr y) = Inr f"
    by blast
  from and_then_Inr [OF fin2] obtain m2 where
    dd: "drop_duplicates (set_scalar (set_scalar m1 ''latitude'' la) ''longitude'' lo)
                      [''latitude'', ''longitude'', ''ts''] = Inr m2"
    and fin3: "(if \<not> is_empty m2 then index_then_sorted m2 key_cols else Inr m2) = Inr f"
    by blast
  note s = sort_values_Inr [OF sv assms(2)]
  from s(1) mc have mc2: "columns m = [''ts'', ''GHI'']" by auto
  note d = drop_duplicates_Inr [OF dd]
  have c2: "columns m2 = columns m @ [''latitude'', ''longitude'']"
    using d(1) s(2) mc2 by (simp add: columns_set_scalar)
  have r2: "rows m2 = drop_seen (\<lambda>r. map r [''latitude'', ''longitude'', ''ts'']) []
              (map (\<lambda>r. r(''longitude'' := Some lo))
                 (map (\<lambda>r. r(''latitude'' := Some la)) (sorter (nan_last ''ts'') (rows m))))"
    using d(2) s(5) by (simp add: rows_set_scalar)
  have ne: "is_empty m2 \<longleftrightarrow> rows m2 = []"
    using c2 by (simp add: is_empty_def)
  have rf: "rows f = rows m2"
    using fin3 index_then_sorted_Inr(1) [of m2 key_cols f] by (auto split: if_splits)
  have cf: "columns f = (if rows f = [] then columns m @ [''latitude'', ''longitude'']
                        else key_cols @ sort (filter (\<lambda>c. c \<notin> set key_cols)
                               (columns m @ [''latitude'', ''longitude''])))"
    using fin3 index_then_sorted_Inr(2) [of m2 key_cols f] rf c2 ne by (auto split: if_splits)
  from r2 rf have rf2: "rows f = drop_seen (\<lambda>r. map r [''latitude'', ''longitude'', ''ts'']) []
              (map (\<lambda>r. r(''longitude'' := Some lo))
                 (map (\<lambda>r. r(''latitude'' := Some la)) (sorter (nan_last ''ts'') (rows m))))"
    by simp
  from mc2 mr rf2 cf show ?thesis by blast
qed

text \<open>
  Claim C1, amended. Whatever order the sort gives to rows with equal keys, when
  \<open>_get_historical_data_source\<close> returns a table, every row carries the latitude and the
  longitude asked for and a timestamp between local midnight of the first day of some
  gap and 23 hours after local midnight of its last day; the rows are in ascending order
  of timestamp; no two rows have the same key (latitude, longitude, ts); a table that
  has rows has its columns in the order latitude, longitude, ts, then the other columns
  sorted; and a table without rows has its columns in the order ts, GHI, latitude,
  longitude.
\<close>
theorem historical_gap_fetch:
  assumes "get_historical_data_source env sorter local_tz latitude longitude gaps st = (Inr f, st')"
    and "sorts_by_key sorter"
  shows "(\<forall>r\<in>set (rows f). r ''latitude'' = Some latitude \<and> r ''longitude'' = Some longitude \<and>
            (\<exists>t. r ''ts'' = Some t \<and>
               (\<exists>(gap_ini, gap_end)\<in>set gaps.
                   local_tz (ordinal gap_ini) \<le> t \<and> t \<le> local_tz (ordinal gap_end) + 23 * 3600))) \<and>
         sorted (map (\<lambda>r. the (r ''ts'')) (rows f)) \<and>
         distinct (map (\<lambda>r. (r ''latitude'', r ''longitude'', r ''ts'')) (rows f)) \<and>
         (rows f \<noteq> [] \<longrightarrow>
            columns f = [''latitude'', ''longitude'', ''ts'', ''GHI''] \<and>
            take 3 (columns f) = key_cols \<and> sorted (drop 3 (columns f))) \<and>
         (rows f = [] \<longrightarrow> columns f = [''ts'', ''GHI'', ''latitude'', ''longitude''])"
proof -
  let ?K = "\<lambda>r::row. map r [''latitude'', ''longitude'', ''ts'']"
  let ?u = "\<lambda>r::row. (r(''latitude'' := Some latitude))(''longitude'' := Some longitude)"
  from historical_rows [OF assms] obtain m :: frame where
    mc: "columns m = [''ts'', ''GHI'']"
    and mr: "\<forall>r\<in>set (rows m). \<exists>t. r ''ts'' = Some t \<and>
               (\<exists>(a, b)\<in>set gaps. local_tz (ordinal a) \<le> t \<and> t \<le> local_tz (ordinal b) + 23 * 3600)"
    and rf: "rows f = drop_seen ?K []
              (map (\<lambda>r. r(''longitude'' := Some longitude))
                 (map (\<lambda>r. r(''latitude'' := Some latitude)) (sorter (nan_last ''ts'') (rows m))))"
    and cf: "columns f = (if rows f = [] then columns m @ [''latitude'', ''longitude'']
                        else key_cols @ sort (filter (\<lambda>c. c \<notin> set key_cols)
                               (columns m @ [''latitude'', ''longitude''])))"
    by blast
  define S where "S = sorter (nan_last ''ts'') (rows m)"
  have setS: "set S = set (rows m)"
    unfolding S_def by (rule sorts_by_key_set [OF assms(2)])
  have sortedS: "sorted (map (nan_last ''ts'') S)"
    using assms(2) by (simp add: S_def sorts_by_key_def)
  have rf': "rows f = drop_seen ?K [] (map ?u S)"
    by (simp add: rf S_def comp_def)
  have sub: "set (rows f) \<subseteq> ?u ` set (rows m)"
    using set_drop_seen [of ?K "[]" "map ?u S"] by (simp add: rf' setS)
  have rows_ok: "\<forall>r\<in>set (rows f). r ''latitude'' = Some latitude \<and> r ''longitude'' = Some longitude \<and>
            (\<exists>t. r ''ts'' = Some t \<and>
               (\<exists>(gap_ini, gap_end)\<in>set gaps.
                   local_tz (ordinal gap_ini) \<le> t \<and> t \<le> local_tz (ordinal gap_end) + 23 * 3600))"
  proof
    fix r assume "r \<in> set (rows f)"
    with sub obtain r0 where r0: "r0 \<in> set (rows m)" and r: "r = ?u r0" by blast
    from r have "r ''ts'' = r0 ''ts''" "r ''latitude'' = Some latitude" "r ''longitude'' = Some longitude"
      by simp_all
    with mr r0 show "r ''latitude'' = Some latitude \<and> r ''longitude'' = Some longitude \<and>
            (\<exists>t. r ''ts'' = Some t \<and>
               (\<exists>(gap_ini, gap_end)\<in>set gaps.
                   local_tz (ordinal gap_ini) \<le> t \<and> t \<le> local_tz (ordinal gap_end) + 23 * 3600))"
      by simp
  qed
  have e: "map (nan_last ''ts'') (map ?u S) = map (nan_last ''ts'') S"
    by (simp add: nan_last_def)
  have "sorted (map (nan_last ''ts'') (map ?u S))"
    unfolding e by (rule sortedS)
  then have "sorted (map (nan_last ''ts'') (rows f))"
    unfolding rf' by (rule sorted_drop_seen)
  then have sorted_ok: "sorted (map (\<lambda>r. the (r ''ts'')) (rows f))"
    by (rule sorted_nan_last) (use rows_ok in blast)
  have "distinct (map ?K (rows f))"
    unfolding rf' by (rule distinct_drop_seen)
  then have distinct_ok: "distinct (map (\<lambda>r. (r ''latitude'', r ''longitude'', r ''ts'')) (rows f))"
    by (rule distinct_map_coarser) simp
  from mc cf have cols_ok: "rows f \<noteq> [] \<longrightarrow>
            columns f = [''latitude'', ''longitude'', ''ts'', ''GHI''] \<and>
            take 3 (columns f) = key_cols \<and> sorted (drop 3 (columns f))"
    by (simp add: key_cols_def)
  from mc cf have empty_ok: "rows f = [] \<longrightarrow> columns f = [''ts'', ''GHI'', ''latitude'', ''longitude'']"
    by simp
  from rows_ok sorted_ok distinct_ok cols_ok empty_ok show ?thesis by (intro conjI)
qed

lemma sample_history:
  "frame_table (fst (get_historical_data_source history_provider sort_key utc 42 (- 8)
       [(date_from, date_to)] session0)) =
     Some ([''latitude'', ''longitude'', ''ts'', ''GHI''],
       [[Some 42, Some (- 8), Some 900, Some 1], [Some 42, Some (- 8), Some 1000, Some 2],
        [Some 42, Some (- 8), Some 4600, Some 3]])"
  by code_simp

lemma sample_history_empty:
  "frame_table (fst (get_historical_data_source history_provider sort_key utc 42 (- 8)
       [(next_day, next_day)] session0)) =
     Some ([''ts'', ''GHI'', ''latitude'', ''longitude''], [])"
  by code_simp

lemma frame_table_Some:
  assumes "frame_table (fst x) = Some (cs, t)"
  shows "\<exists>f st'. x = (Inr f, st') \<and> columns f = cs \<and> map (\<lambda>r. map r (columns f)) (rows f) = t"
  using assms by (cases x) (auto simp: frame_table_def split: sum.splits)

text \<open>
  The gap from 10:00 to 12:00 of day 0 in UTC. The source starts one day earlier; the
  sample provider gives the same three rows for both days, and three rows are left once
  the duplicates are dropped.
\<close>
theorem historical_gap_fetch_witness:
  "\<exists>f st'. get_historical_data_source history_provider sort_key utc 42 (- 8)
       [(date_from, date_to)] session0 = (Inr f, st') \<and>
     map (\<lambda>r. map r (columns f)) (rows f) =
       [[Some 42, Some (- 8), Some 900, Some 1], [Some 42, Some (- 8), Some 1000, Some 2],
        [Some 42, Some (- 8), Some 4600, Some 3]] \<and>
     (\<forall>r\<in>set (rows f). r ''latitude'' = Some 42 \<and> r ''longitude'' = Some (- 8) \<and>
            (\<exists>t. r ''ts'' = Some t \<and>
               (\<exists>(gap_ini, gap_end)\<in>set [(date_from, date_to)].
                   utc (ordinal gap_ini) \<le> t \<and> t \<le> utc (ordinal gap_end) + 23 * 3600))) \<and>
     sorted (map (\<lambda>r. the (r ''ts'')) (rows f)) \<and>
     distinct (map (\<lambda>r. (r ''latitude'', r ''longitude'', r ''ts'')) (rows f)) \<and>
     (rows f \<noteq> [] \<longrightarrow>
        columns f = [''latitude'', ''longitude'', ''ts'', ''GHI''] \<and>
        take 3 (columns f) = key_cols \<and> sorted (drop 3 (columns f))) \<and>
     (rows f = [] \<longrightarrow> columns f = [''ts'', ''GHI'', ''latitude'', ''longitude''])"
proof -
  from frame_table_Some [OF sample_history] obtain f st' where
    e: "get_historical_data_source history_provider sort_key utc 42 (- 8)
          [(date_from, date_to)] session0 = (Inr f, st')"
    and c: "columns f = [''latitude'', ''longitude'', ''ts'', ''GHI'']"
    and t: "map (\<lambda>r. map r (columns f)) (rows f) =
       [[Some 42, Some (- 8), Some 900, Some 1], [Some 42, Some (- 8), Some 1000, Some 2],
        [Some 42, Some (- 8), Some 4600, Some 3]]"
    by (elim exE conjE)
  note h = historical_gap_fetch [OF e sorts_by_key_sort_key]
  show ?thesis
  proof (intro exI conjI)
    show "get_historical_data_source history_provider sort_key utc 42 (- 8)
          [(date_from, date_to)] session0 = (Inr f, st')"
      by (fact e)
    show "map (\<lambda>r. map r (columns f)) (rows f) =
       [[Some 42, Some (- 8), Some 900, Some 1], [Some 42, Some (- 8), Some 1000, Some 2],
        [Some 42, Some (- 8), Some 4600, Some 3]]"
      by (fact t)
  qed (insert h, (elim conjE, assumption)+)
qed

text \<open>
  The requested range runs from 10:00 (second 36000) to 12:00 (second 43200) of day 0 and
  is the one gap. The table returned has its rows at the seconds 900, 1000 and 4600, all
  of them before the start of the range: the rows lie within the days of the gap, not
  within the requested bound that claim C1 states. With the gap of day 1 the table
  returned has no row and its columns are in the order ts, GHI, latitude, longitude: the
  key columns do not come first, as claim C1 states they do.
\<close>
theorem historical_bound_and_columns_counterexample:
  "(\<exists>f st'. get_historical_data_source history_provider sort_key utc 42 (- 8)
        [(date_from, date_to)] session0 = (Inr f, st') \<and>
      map (\<lambda>r. r ''ts'') (rows f) = [Some 900, Some 1000, Some 4600] \<and>
      epoch date_from = 36000 \<and> epoch date_to = 43200 \<and> \<not> ((36000::real) \<le> 900)) \<and>
   (\<exists>f st'. get_historical_data_source history_provider sort_key utc 42 (- 8)
        [(next_day, next_day)] session0 = (Inr f, st') \<and>
      rows f = [] \<and> columns f = [''ts'', ''GHI'', ''latitude'', ''longitude''] \<and>
      take 3 (columns f) \<noteq> [''latitude'', ''longitude'', ''ts''])"
proof (rule conjI)
  from frame_table_Some [OF sample_history] obtain f st' where
    e: "get_historical_data_source history_provider sort_key utc 42 (- 8)
          [(date_from, date_to)] session0 = (Inr f, st')"
    and c: "columns f = [''latitude'', ''longitude'', ''ts'', ''GHI'']"
    and t: "map (\<lambda>r. map r (columns f)) (rows f) =
       [[Some 42, Some (- 8), Some 900, Some 1], [Some 42, Some (- 8), Some 1000, Some 2],
        [Some 42, Some (- 8), Some 4600, Some 3]]"
    by (elim exE conjE)
  from t have "map (\<lambda>x. x ! 2) (map (\<lambda>r. map r (columns f)) (rows f)) = [Some 900, Some 1000, Some 4600]"
    by simp
  then have "map (\<lambda>r. r ''ts'') (rows f) = [Some 900, Some 1000, Some 4600]"
    by (simp add: c comp_def)
  with e show "\<exists>f st'. get_historical_data_source history_provider sort_key utc 42 (- 8)
        [(date_from, date_to)] session0 = (Inr f, st') \<and>
      map (\<lambda>r. r ''ts'') (rows f) = [Some 900, Some 1000, Some 4600] \<and>
      epoch date_from = 36000 \<and> epoch date_to = 43200 \<and> \<not> ((36000::real) \<le> 900)"
    by (simp add: date_from_def date_to_def)
next
  from frame_table_Some [OF sample_history_empty] obtain f st' where
    e: "get_historical_data_source history_provider sort_key utc 42 (- 8)
          [(next_day, next_day)] session0 = (Inr f, st')"
    and c: "columns f = [''ts'', ''GHI'', ''latitude'', ''longitude'']"
    and t: "map (\<lambda>r. map r (columns f)) (rows f) = []"
    by (elim exE conjE)
  from t have "rows f = []" by simp
  with e c show "\<exists>f st'. get_historical_data_source history_provider sort_key utc 42 (- 8)
        [(next_day, next_day)] session0 = (Inr f, st') \<and>
      rows f = [] \<and> columns f = [''ts'', ''GHI'', ''latitude'', ''longitude''] \<and>
      take 3 (columns f) \<noteq> [''latitude'', ''longitude'', ''ts'']"
    by simp
qed


subsection \<open>The index file of \<open>query_from_grib\<close>\<close>

lemma load_grib_files:
  assumes "load_grib env files fn hash = (r, files')"
  shows "files' \<subseteq> insert (index_path fn hash) files"
    and "snd (open_datasets env fn (index_path fn hash)) = Inr dg \<Longrightarrow> index_path fn hash \<notin> files'"
    and "r = Inr f \<Longrightarrow> files' = files - {index_path fn hash}"
  using assms
  by (auto simp: load_grib_def os_remove_def Let_def split: prod.splits sum.splits if_splits)

lemma grib_loop_files:
  assumes "grib_loop env files fs df = (Inr r, files')"
  shows "files' = files - (\<lambda>(fn, hash). index_path fn hash) ` set fs"
  using assms
proof (induction fs arbitrary: files df)
  case Nil
  then show ?case by simp
next
  case (Cons p fs)
  obtain fn hash where p: "p = (fn, hash)" by (cases p)
  from Cons.prems obtain f files1 where
    l: "load_grib env files fn hash = (Inr f, files1)"
    and rest: "grib_loop env files1 fs (Some (case df of None \<Rightarrow> f | Some d \<Rightarrow> concat_frames d f)) = (Inr r, files')"
    by (auto simp: p split: prod.splits sum.splits)
  from load_grib_files(3) [OF l] have "files1 = files - {index_path fn hash}" by simp
  with Cons.IH [OF rest] show ?case by (auto simp: p)
qed

text \<open>
  Claim C9, amended. For every GRIB file for which \<open>cfgrib.open_datasets\<close> returns, the
  index file does not exist once the file has been handled, whatever happens to the
  datasets afterwards; and when \<open>query_from_grib\<close> returns, no index file of any file of
  the list exists.
\<close>
theorem index_removed_when_opened:
  "(snd (open_datasets env fn (index_path fn hash)) = Inr dg \<longrightarrow>
      index_path fn hash \<notin> snd (load_grib env files fn hash)) \<and>
   (fst (query_from_grib env files list_grib_files) = Inr df \<longrightarrow>
      (\<forall>(fn, hash)\<in>set list_grib_files.
          index_path fn hash \<notin> snd (query_from_grib env files list_grib_files)))"
proof (intro conjI impI)
  assume "snd (open_datasets env fn (index_path fn hash)) = Inr dg"
  then show "index_path fn hash \<notin> snd (load_grib env files fn hash)"
    using load_grib_files(2) [of env files fn hash "fst (load_grib env files fn hash)"
        "snd (load_grib env files fn hash)" dg] by simp
next
  assume "fst (query_from_grib env files list_grib_files) = Inr df"
  then have "grib_loop env files list_grib_files None =
      (Inr df, snd (query_from_grib env files list_grib_files))"
    by (simp add: query_from_grib_def prod_eq_iff)
  from grib_loop_files [OF this]
  show "\<forall>(fn, hash)\<in>set list_grib_files.
          index_path fn hash \<notin> snd (query_from_grib env files list_grib_files)"
    by auto
qed

lemma sample_reader_run:
  "\<exists>df. query_from_grib sample_reader {''data/201301.grib''} [(''data/201301.grib'', ''77'')] =
     (Inr (Some df), {''data/201301.grib''})"
proof -
  from era5_sample_runs obtain df where "transformation_pipe era5_sample = Inr df" ..
  then show ?thesis
    by (simp add: query_from_grib_def load_grib_def sample_reader_def os_remove_def index_path_def
        and_then_def)
qed

text \<open>One file that opens and loads.\<close>
theorem index_removed_when_opened_witness:
  "snd (open_datasets sample_reader ''data/201301.grib'' (index_path ''data/201301.grib'' ''77'')) = Inr () \<and>
   index_path ''data/201301.grib'' ''77'' \<notin>
      snd (load_grib sample_reader {''data/201301.grib''} ''data/201301.grib'' ''77'') \<and>
   (\<exists>df. fst (query_from_grib sample_reader {''data/201301.grib''} [(''data/201301.grib'', ''77'')]) = Inr df \<and>
      (\<forall>(fn, hash)\<in>set [(''data/201301.grib'', ''77'')].
          index_path fn hash \<notin>
            snd (query_from_grib sample_reader {''data/201301.grib''} [(''data/201301.grib'', ''77'')])))"
proof -
  have o: "snd (open_datasets sample_reader ''data/201301.grib'' (index_path ''data/201301.grib'' ''77'')) = Inr ()"
    by (simp add: sample_reader_def)
  from sample_reader_run obtain df where
    "fst (query_from_grib sample_reader {''data/201301.grib''} [(''data/201301.grib'', ''77'')]) = Inr (Some df)"
    by auto
  with o index_removed_when_opened [of sample_reader "''data/201301.grib''" "''77''" "()"
      "{''data/201301.grib''}" "[(''data/201301.grib'', ''77'')]" "Some df"]
  show ?thesis by blast
qed

text \<open>
  A reader that writes the index file and then fails to parse: \<open>os.remove\<close> is not
  reached, the exception leaves \<open>query_from_grib\<close>, and the index file stays. The deletion
  on the error path that the claim C9 states does not happen.
\<close>
theorem index_left_behind_counterexample:
  "query_from_grib broken_reader {''data/201301.grib''} [(''data/201301.grib'', ''77'')] =
     (Inl (ProviderError ''premature end of file''),
      {''data/201301.grib.77.idx'', ''data/201301.grib''}) \<and>
   index_path ''data/201301.grib'' ''77'' \<in>
      snd (query_from_grib broken_reader {''data/201301.grib''} [(''data/201301.grib'', ''77'')])"
  by (simp add: query_from_grib_def load_grib_def broken_reader_def index_path_def)


subsection \<open>The raster aggregation\<close>

lemma show_nat_0: "show_nat 0 = ''0''"
  by (simp add: show_nat.simps digit_chars_def)

lemma round_half_even_sign:
  "x < 0 \<Longrightarrow> round_half_even x \<le> 0" "0 \<le> x \<Longrightarrow> 0 \<le> round_half_even x"
proof -
  assume "x < 0"
  then have "\<lfloor>x\<rfloor> + 1 \<le> 0" by linarith
  then show "round_half_even x \<le> 0"
    by (auto simp: round_half_even_def Let_def)
next
  assume "0 \<le> x"
  then have "0 \<le> \<lfloor>x\<rfloor>" by simp
  then show "0 \<le> round_half_even x"
    by (auto simp: round_half_even_def Let_def)
qed

lemma rounded_coordinate_zero:
  assumes "round_half_even (x * 10) = 0"
  shows "rounded_coordinate x = ''0.0''"
  using assms by (simp add: rounded_coordinate_def str_tenths_def show_nat_0)

lemma rounded_coordinate_nonzero:
  assumes "round_half_even (x * 10) = k" and "k \<noteq> 0"
  shows "rounded_coordinate x = (let s = str_tenths (k < 0) k in if s = ''-0.0'' then ''0.0'' else s)"
proof -
  have "x < 0 \<longleftrightarrow> k < 0"
  proof
    assume "x < 0"
    then have "x * 10 < 0" by simp
    from round_half_even_sign(1) [OF this] assms show "k < 0" by simp
  next
    assume "k < 0"
    show "x < 0"
    proof (rule ccontr)
      assume "\<not> x < 0"
      then have "0 \<le> x * 10" by simp
      from round_half_even_sign(2) [OF this] assms \<open>k < 0\<close> show False by simp
    qed
  qed
  with assms(1) show ?thesis by (simp add: rounded_coordinate_def Let_def)
qed

lemma rounded_coordinate_cong:
  assumes "round_half_even (x * 10) = round_half_even (y * 10)"
  shows "rounded_coordinate x = rounded_coordinate y"
proof (cases "round_half_even (y * 10) = 0")
  case True
  with assms show ?thesis by (simp add: rounded_coordinate_zero)
next
  case False
  from rounded_coordinate_nonzero [OF assms False] rounded_coordinate_nonzero [OF refl False]
  show ?thesis by simp
qed

lemma row_key_group_row: "row_key (group_row cells k) = k"
  by (cases k) (simp add: row_key_def group_row_def)

lemma row_keys_groupby: "map row_key (groupby_mean cells) = sort (remdups (map key_of cells))"
  by (simp add: groupby_mean_def comp_def row_key_group_row)

lemma one_per_key:
  assumes "distinct (map f xs)" and "k \<in> f ` set xs"
  shows "length (filter (\<lambda>w. f w = k) xs) = 1"
  using assms
proof (induction xs)
  case Nil
  then show ?case by simp
next
  case (Cons x xs)
  from Cons.prems(1) have nx: "f x \<notin> f ` set xs" and d: "distinct (map f xs)" by simp_all
  show ?case
  proof (cases "f x = k")
    case True
    with nx have "\<forall>w\<in>set xs. f w \<noteq> k" by blast
    then have "filter (\<lambda>w. f w = k) xs = []" by (simp add: filter_empty_conv)
    with True show ?thesis by simp
  next
    case False
    with Cons.prems(2) have "k \<in> f ` set xs" by auto
    from Cons.IH [OF d this] False show ?thesis by simp
  qed
qed

lemma nan_mean_present:
  assumes "vs \<noteq> []"
  shows "nan_mean (map Some vs) = Some (sum_list vs / real (length vs))"
proof -
  have "List.map_filter (\<lambda>v. v) (map Some vs) = vs"
    by (induction vs) (simp_all add: List.map_filter_simps)
  with assms show ?thesis by (simp add: nan_mean_def)
qed

lemma collect_raster_Inr:
  assumes "collect_raster fetch a b c d day = Inr out"
  shows "out = groupby_mean (raster_cells (fetch a b c d day))"
  using assms
  by (auto simp: collect_raster_def Let_def and_then_def split: sum.splits)

lemma groupby_mean_row:
  assumes "w \<in> set (groupby_mean cells)" and "c \<in> set cols_mean"
  shows "row_means w c = nan_mean (map (\<lambda>x. cell_values x c) (filter (\<lambda>x. key_of x = row_key w) cells))"
    and "row_key w \<in> key_of ` set cells"
proof -
  from assms(1) have "w \<in> group_row cells ` set (sort (remdups (map key_of cells)))"
    by (simp add: groupby_mean_def)
  then obtain k where k': "k \<in> set (sort (remdups (map key_of cells)))" and w: "w = group_row cells k"
    by (rule imageE)
  from k' have k: "k \<in> key_of ` set cells" by simp
  from w have rk: "row_key w = k" by (simp add: row_key_group_row)
  from k rk show "row_key w \<in> key_of ` set cells" by simp
  obtain a b la lo where kk: "k = (a, b, la, lo)" by (cases k)
  from w assms(2) have "row_means w c = nan_mean (map (\<lambda>x. cell_values x c) (filter (\<lambda>x. key_of x = k) cells))"
    by (simp add: group_row_def kk)
  with rk show "row_means w c = nan_mean (map (\<lambda>x. cell_values x c) (filter (\<lambda>x. key_of x = row_key w) cells))"
    by simp
qed

lemma groupby_mean_pair:
  assumes "key_of x = key_of y"
  shows "\<exists>w. groupby_mean [x, y] = [w] \<and> row_key w = key_of x \<and>
     (\<forall>c\<in>set cols_mean. \<forall>u v. cell_values x c = Some u \<and> cell_values y c = Some v \<longrightarrow>
        row_means w c = Some ((u + v) / 2))"
proof -
  have g: "groupby_mean [x, y] = [group_row [x, y] (key_of x)]"
    using assms by (simp add: groupby_mean_def)
  have "row_means (group_row [x, y] (key_of x)) c = Some ((u + v) / 2)"
    if "c \<in> set cols_mean" "cell_values x c = Some u" "cell_values y c = Some v" for c u v
  proof -
    have "group_row [x, y] (key_of x) \<in> set (groupby_mean [x, y])" by (simp add: g)
    from groupby_mean_row(1) [OF this that(1)] assms that(2,3)
    show ?thesis by (simp add: row_key_group_row nan_mean_def List.map_filter_simps)
  qed
  with g show ?thesis by (simp add: row_key_group_row)
qed

lemma digit_chars_facts:
  "length digit_chars = 10" "distinct digit_chars" "CHR ''-'' \<notin> set digit_chars"
  "digit_chars ! 0 = CHR ''0''"
  by (simp_all add: digit_chars_def)

lemma digit_chars_inj:
  assumes "digit_chars ! a = digit_chars ! b" and "a < 10" and "b < 10"
  shows "a = b"
  using assms digit_chars_facts(1,2) by (simp add: nth_eq_iff_index_eq)

lemma show_nat_small: "n < 10 \<Longrightarrow> show_nat n = [digit_chars ! n]"
  by (simp add: show_nat.simps)

lemma show_nat_big: "\<not> n < 10 \<Longrightarrow> show_nat n = show_nat (n div 10) @ [digit_chars ! (n mod 10)]"
  by (subst show_nat.simps) simp

lemma show_nat_nonempty: "show_nat n \<noteq> []"
  by (cases "n < 10") (simp_all add: show_nat_small show_nat_big)

lemma show_nat_digits: "set (show_nat n) \<subseteq> set digit_chars"
proof (induction n rule: show_nat.induct)
  case (1 n)
  show ?case
  proof (cases "n < 10")
    case True
    then have "digit_chars ! n \<in> set digit_chars"
      by (intro nth_mem) (simp add: digit_chars_facts(1))
    with True show ?thesis by (simp add: show_nat_small)
  next
    case False
    have "digit_chars ! (n mod 10) \<in> set digit_chars"
      by (intro nth_mem) (simp add: digit_chars_facts(1))
    with False "1.IH" show ?thesis by (simp add: show_nat_big)
  qed
qed

lemma show_nat_hd: "hd (show_nat n) \<noteq> CHR ''-''"
proof -
  have "hd (show_nat n) \<in> set (show_nat n)" by (simp add: show_nat_nonempty)
  with show_nat_digits [of n] digit_chars_facts(3) show ?thesis by auto
qed

lemma show_nat_length: "length (show_nat n) = 1 \<longleftrightarrow> n < 10"
proof (cases "n < 10")
  case True
  then show ?thesis by (simp add: show_nat_small)
next
  case False
  have "0 < length (show_nat (n div 10))" by (simp add: show_nat_nonempty)
  with False show ?thesis by (simp add: show_nat_big)
qed

lemma show_nat_inj: "show_nat n = show_nat m \<Longrightarrow> n = m"
proof (induction n arbitrary: m rule: show_nat.induct)
  case (1 n)
  from "1.prems" have len: "length (show_nat n) = length (show_nat m)" by simp
  show ?case
  proof (cases "n < 10")
    case True
    with len have m: "m < 10" by (simp add: show_nat_length [symmetric])
    with True "1.prems" have "digit_chars ! n = digit_chars ! m" by (simp add: show_nat_small)
    from this True m show ?thesis by (rule digit_chars_inj)
  next
    case False
    with len have m: "\<not> m < 10" by (simp add: show_nat_length [symmetric])
    with False "1.prems" have
      "show_nat (n div 10) @ [digit_chars ! (n mod 10)] = show_nat (m div 10) @ [digit_chars ! (m mod 10)]"
      by (simp add: show_nat_big)
    then have p: "show_nat (n div 10) = show_nat (m div 10)"
      and q: "digit_chars ! (n mod 10) = digit_chars ! (m mod 10)" by simp_all
    from "1.IH" [OF False p] have d: "n div 10 = m div 10" .
    from q have r: "n mod 10 = m mod 10" by (rule digit_chars_inj) simp_all
    have "n = 10 * (n div 10) + n mod 10" by simp
    also have "\<dots> = 10 * (m div 10) + m mod 10" by (simp only: d r)
    also have "\<dots> = m" by simp
    finally show ?thesis .
  qed
qed

lemma str_tenths_body:
  "str_tenths negative k =
     (if negative then ''-'' else []) @ show_nat (nat \<bar>k\<bar> div 10) @ [CHR ''.'', digit_chars ! (nat \<bar>k\<bar> mod 10)]"
  by (simp add: str_tenths_def show_nat_small)

lemma tenths_body_inj:
  assumes "show_nat (a div 10) @ [CHR ''.'', digit_chars ! (a mod 10)] =
           show_nat (b div 10) @ [CHR ''.'', digit_chars ! (b mod 10)]"
  shows "a = b"
proof -
  from assms have p: "show_nat (a div 10) = show_nat (b div 10)"
    and q: "digit_chars ! (a mod 10) = digit_chars ! (b mod 10)"
    by (simp_all add: append_eq_append_conv)
  from p have d: "a div 10 = b div 10" by (rule show_nat_inj)
  from q have r: "a mod 10 = b mod 10" by (rule digit_chars_inj) simp_all
  have "a = 10 * (a div 10) + a mod 10" by simp
  also have "\<dots> = 10 * (b div 10) + b mod 10" by (simp only: d r)
  also have "\<dots> = b" by simp
  finally show ?thesis .
qed

lemma str_tenths_sign:
  "str_tenths True k \<noteq> str_tenths False k'"
proof
  assume "str_tenths True k = str_tenths False k'"
  then have "hd (str_tenths True k) = hd (str_tenths False k')" by simp
  then have "CHR ''-'' = hd (show_nat (nat \<bar>k'\<bar> div 10))"
    by (simp add: str_tenths_body hd_append show_nat_nonempty)
  with show_nat_hd show False by metis
qed

lemma str_tenths_inj:
  assumes "str_tenths (k < 0) k = str_tenths (k' < 0) k'"
  shows "k = k'"
proof -
  have s: "(k < 0) = (k' < 0)"
    using assms str_tenths_sign [of k k'] str_tenths_sign [of k' k] by (cases "k < 0"; cases "k' < 0") auto
  with assms have "show_nat (nat \<bar>k\<bar> div 10) @ [CHR ''.'', digit_chars ! (nat \<bar>k\<bar> mod 10)] =
           show_nat (nat \<bar>k'\<bar> div 10) @ [CHR ''.'', digit_chars ! (nat \<bar>k'\<bar> mod 10)]"
    by (simp add: str_tenths_body)
  then have "nat \<bar>k\<bar> = nat \<bar>k'\<bar>" by (rule tenths_body_inj)
  with s show ?thesis by linarith
qed

lemma str_tenths_not_negative_zero:
  assumes "k \<noteq> 0"
  shows "str_tenths (k < 0) k \<noteq> ''-0.0''"
proof
  assume e: "str_tenths (k < 0) k = ''-0.0''"
  have z: "''-0.0'' = str_tenths True 0"
    by (simp add: str_tenths_body show_nat_0 digit_chars_facts(4))
  show False
  proof (cases "k < 0")
    case True
    with e z have "show_nat (nat \<bar>k\<bar> div 10) @ [CHR ''.'', digit_chars ! (nat \<bar>k\<bar> mod 10)] =
           show_nat (nat \<bar>0::int\<bar> div 10) @ [CHR ''.'', digit_chars ! (nat \<bar>0::int\<bar> mod 10)]"
      by (simp add: str_tenths_body)
    then have "nat \<bar>k\<bar> = nat \<bar>0::int\<bar>" by (rule tenths_body_inj)
    with assms show False by simp
  next
    case False
    with e z str_tenths_sign [of 0 k] show False by simp
  qed
qed

lemma rounded_coordinate_eq:
  "rounded_coordinate x = str_tenths (round_half_even (x * 10) < 0) (round_half_even (x * 10))"
proof (cases "round_half_even (x * 10) = 0")
  case True
  then show ?thesis
    by (simp add: rounded_coordinate_zero str_tenths_body show_nat_0 digit_chars_facts(4))
next
  case False
  from rounded_coordinate_nonzero [OF refl False] str_tenths_not_negative_zero [OF False]
  show ?thesis by (simp add: Let_def)
qed

lemma rounded_coordinate_inj:
  assumes "rounded_coordinate x = rounded_coordinate y"
  shows "round_half_even (x * 10) = round_half_even (y * 10)"
proof (rule str_tenths_inj)
  from assms show "str_tenths (round_half_even (x * 10) < 0) (round_half_even (x * 10)) =
      str_tenths (round_half_even (y * 10) < 0) (round_half_even (y * 10))"
    by (simp only: rounded_coordinate_eq)
qed

lemma key_of_iff: "key_of x = key_of y \<longleftrightarrow> same_group x y"
proof
  assume "key_of x = key_of y"
  then have "cell_forecasting_timestamp x div 1000000000 = cell_forecasting_timestamp y div 1000000000"
    and "cell_timestamp x div 1000000000 = cell_timestamp y div 1000000000"
    and a: "rounded_coordinate (cell_latitude x) = rounded_coordinate (cell_latitude y)"
    and b: "rounded_coordinate (cell_longitude x) = rounded_coordinate (cell_longitude y)"
    by (simp_all add: key_of_def)
  with rounded_coordinate_inj [OF a] rounded_coordinate_inj [OF b]
  show "same_group x y" by (simp add: same_group_def)
next
  assume "same_group x y"
  then have "cell_forecasting_timestamp x div 1000000000 = cell_forecasting_timestamp y div 1000000000"
    and "cell_timestamp x div 1000000000 = cell_timestamp y div 1000000000"
    and a: "round_half_even (cell_latitude x * 10) = round_half_even (cell_latitude y * 10)"
    and b: "round_half_even (cell_longitude x * 10) = round_half_even (cell_longitude y * 10)"
    by (simp_all add: same_group_def)
  with rounded_coordinate_cong [OF a] rounded_coordinate_cong [OF b]
  show "key_of x = key_of y" by (simp add: key_of_def)
qed

lemma same_group_refl: "same_group x x"
  by (simp add: same_group_def)

lemma same_group_filter:
  "filter (\<lambda>y. key_of y = key_of x) cells = filter (same_group x) cells"
proof (rule filter_cong [OF refl])
  fix y
  show "(key_of y = key_of x) = same_group x y"
    using key_of_iff [of x y] by auto
qed

lemma singleton_filter:
  assumes "length (filter P xs) = 1"
  shows "\<exists>w. filter P xs = [w] \<and> w \<in> set xs \<and> P w"
proof -
  from assms obtain w where w: "filter P xs = [w]"
    by (cases "filter P xs") simp_all
  then have "w \<in> set (filter P xs)" by simp
  then have "w \<in> set xs" "P w" by simp_all
  with w show ?thesis by blast
qed

lemma groupby_mean_group:
  assumes "x \<in> set cells"
  shows "\<exists>w. filter (\<lambda>w. row_key w = key_of x) (groupby_mean cells) = [w] \<and>
     (\<forall>y. row_key w = key_of y \<longleftrightarrow> same_group x y) \<and>
     (\<forall>c\<in>set cols_mean.
        row_means w c = nan_mean (map (\<lambda>y. cell_values y c) (filter (same_group x) cells))) \<and>
     (\<forall>c\<in>set cols_mean. \<forall>vs.
        map (\<lambda>y. cell_values y c) (filter (same_group x) cells) = map Some vs \<longrightarrow>
        row_means w c = Some (sum_list vs / real (length vs)))"
proof -
  have keys: "map row_key (groupby_mean cells) = sort (remdups (map key_of cells))"
    by (rule row_keys_groupby)
  then have d: "distinct (map row_key (groupby_mean cells))" by simp
  from assms have "key_of x \<in> set (map row_key (groupby_mean cells))" by (simp add: keys)
  then have "key_of x \<in> row_key ` set (groupby_mean cells)" by simp
  with d have "length (filter (\<lambda>w. row_key w = key_of x) (groupby_mean cells)) = 1"
    by (rule one_per_key)
  from singleton_filter [OF this] obtain w
    where f: "filter (\<lambda>w. row_key w = key_of x) (groupby_mean cells) = [w]"
      and w: "w \<in> set (groupby_mean cells)" and k: "row_key w = key_of x"
    by (elim exE conjE)
  have a: "\<forall>y. row_key w = key_of y \<longleftrightarrow> same_group x y"
    by (simp add: k key_of_iff)
  have m: "row_means w c = nan_mean (map (\<lambda>y. cell_values y c) (filter (same_group x) cells))"
    if "c \<in> set cols_mean" for c
    using groupby_mean_row(1) [OF w that] by (simp only: k same_group_filter)
  have p: "row_means w c = Some (sum_list vs / real (length vs))"
    if c: "c \<in> set cols_mean"
      and e: "map (\<lambda>y. cell_values y c) (filter (same_group x) cells) = map Some vs" for c vs
  proof -
    from assms same_group_refl [of x] have "filter (same_group x) cells \<noteq> []"
      by (auto simp: filter_empty_conv)
    with e have "vs \<noteq> []" by auto
    from nan_mean_present [OF this] m [OF c] e show ?thesis by simp
  qed
  from f a m p show ?thesis by blast
qed

lemma groupby_mean_member:
  assumes "w \<in> set (groupby_mean cells)"
  shows "\<exists>x\<in>set cells. row_key w = key_of x"
proof -
  from assms have "row_key w \<in> set (map row_key (groupby_mean cells))" by simp
  then have "row_key w \<in> key_of ` set cells" by (simp add: row_keys_groupby)
  then show ?thesis by auto
qed

lemma groupby_mean_apart:
  assumes "\<not> same_group x y"
  shows "length (groupby_mean [x, y]) = 2"
proof -
  from assms have "key_of x \<noteq> key_of y" by (simp add: key_of_iff)
  then show ?thesis by (simp add: groupby_mean_def)
qed

lemma groupby_mean_together:
  assumes "same_group x y"
  shows "\<exists>w. groupby_mean [x, y] = [w] \<and>
     (\<forall>c\<in>set cols_mean. \<forall>u v. cell_values x c = Some u \<and> cell_values y c = Some v \<longrightarrow>
        row_means w c = Some ((u + v) / 2))"
proof -
  from assms have "key_of x = key_of y" by (simp add: key_of_iff)
  from groupby_mean_pair [OF this] show ?thesis by blast
qed

text \<open>
  Claim C8. Whenever the raster collection returns a table: every raw cell has exactly one
  output row carrying its two timestamps in seconds and its coordinates rounded to tenths;
  that row carries the label of another cell exactly when the two cells share both seconds
  and round to the same tenths of latitude and of longitude; each of its aggregated columns
  is the mean, missing values skipped, of that column over exactly the cells of the group,
  hence the arithmetic mean (sum over count) when none of them is missing. Cells with equal
  timestamps that round to the same tenths are in the same group. Every output row is the
  row of some cell, and no two rows carry the same four labels. In particular two cells of
  one group give a single row holding their mean, and two cells of different groups give
  two rows.
\<close>
theorem raster_groups_are_means:
  assumes "collect_raster fetch min_lat max_lat min_lon max_lon day = Inr out"
    and "cells = raster_cells (fetch min_lat max_lat min_lon max_lon day)"
  shows "(\<forall>x\<in>set cells. \<exists>w.
        filter (\<lambda>w. row_key w =
            (cell_forecasting_timestamp x div 1000000000, cell_timestamp x div 1000000000,
             rounded_coordinate (cell_latitude x), rounded_coordinate (cell_longitude x))) out = [w] \<and>
        (\<forall>y. row_key w =
            (cell_forecasting_timestamp y div 1000000000, cell_timestamp y div 1000000000,
             rounded_coordinate (cell_latitude y), rounded_coordinate (cell_longitude y))
          \<longleftrightarrow> same_group x y) \<and>
        (\<forall>c\<in>set cols_mean.
           row_means w c = nan_mean (map (\<lambda>y. cell_values y c) (filter (same_group x) cells))) \<and>
        (\<forall>c\<in>set cols_mean. \<forall>vs.
           map (\<lambda>y. cell_values y c) (filter (same_group x) cells) = map Some vs \<longrightarrow>
           row_means w c = Some (sum_list vs / real (length vs)))) \<and>
    (\<forall>x y. cell_forecasting_timestamp x = cell_forecasting_timestamp y \<and>
           cell_timestamp x = cell_timestamp y \<and>
           round_half_even (cell_latitude x * 10) = round_half_even (cell_latitude y * 10) \<and>
           round_half_even (cell_longitude x * 10) = round_half_even (cell_longitude y * 10) \<longrightarrow>
           same_group x y) \<and>
    (\<forall>w\<in>set out. \<exists>x\<in>set cells. row_key w =
            (cell_forecasting_timestamp x div 1000000000, cell_timestamp x div 1000000000,
             rounded_coordinate (cell_latitude x), rounded_coordinate (cell_longitude x))) \<and>
    distinct (map row_key out) \<and>
    (\<forall>x y. cells = [x, y] \<and> same_group x y \<longrightarrow>
        (\<exists>w. out = [w] \<and>
           (\<forall>c\<in>set cols_mean. \<forall>u v. cell_values x c = Some u \<and> cell_values y c = Some v \<longrightarrow>
              row_means w c = Some ((u + v) / 2)))) \<and>
    (\<forall>x y. cells = [x, y] \<and> \<not> same_group x y \<longrightarrow> length out = 2)"
proof -
  from collect_raster_Inr [OF assms(1)] have out: "out = groupby_mean cells"
    by (simp add: assms(2))
  have p1: "\<forall>x\<in>set cells. \<exists>w.
        filter (\<lambda>w. row_key w = key_of x) out = [w] \<and>
        (\<forall>y. row_key w = key_of y \<longleftrightarrow> same_group x y) \<and>
        (\<forall>c\<in>set cols_mean.
           row_means w c = nan_mean (map (\<lambda>y. cell_values y c) (filter (same_group x) cells))) \<and>
        (\<forall>c\<in>set cols_mean. \<forall>vs.
           map (\<lambda>y. cell_values y c) (filter (same_group x) cells) = map Some vs \<longrightarrow>
           row_means w c = Some (sum_list vs / real (length vs)))"
    unfolding out by (intro ballI groupby_mean_group)
  have p2: "\<forall>x y. cell_forecasting_timestamp x = cell_forecasting_timestamp y \<and>
           cell_timestamp x = cell_timestamp y \<and>
           round_half_even (cell_latitude x * 10) = round_half_even (cell_latitude y * 10) \<and>
           round_half_even (cell_longitude x * 10) = round_half_even (cell_longitude y * 10) \<longrightarrow>
           same_group x y"
    by (simp add: same_group_def)
  have p3: "\<forall>w\<in>set out. \<exists>x\<in>set cells. row_key w = key_of x"
    unfolding out by (intro ballI groupby_mean_member)
  have p4: "distinct (map row_key out)"
    by (simp add: out row_keys_groupby)
  have p5: "\<forall>x y. cells = [x, y] \<and> same_group x y \<longrightarrow>
        (\<exists>w. out = [w] \<and>
           (\<forall>c\<in>set cols_mean. \<forall>u v. cell_values x c = Some u \<and> cell_values y c = Some v \<longrightarrow>
              row_means w c = Some ((u + v) / 2)))"
  proof (intro allI impI)
    fix x y assume "cells = [x, y] \<and> same_group x y"
    then have c: "cells = [x, y]" and k: "same_group x y" by simp_all
    from groupby_mean_together [OF k] show "\<exists>w. out = [w] \<and>
           (\<forall>c\<in>set cols_mean. \<forall>u v. cell_values x c = Some u \<and> cell_values y c = Some v \<longrightarrow>
              row_means w c = Some ((u + v) / 2))"
      unfolding out c .
  qed
  have p6: "\<forall>x y. cells = [x, y] \<and> \<not> same_group x y \<longrightarrow> length out = 2"
  proof (intro allI impI)
    fix x y assume "cells = [x, y] \<and> \<not> same_group x y"
    then have c: "cells = [x, y]" and k: "\<not> same_group x y" by simp_all
    from groupby_mean_apart [OF k] show "length out = 2" unfolding out c .
  qed
  from p1 p2 p3 p4 p5 p6 show ?thesis unfolding key_of_def by (intro conjI)
qed

lemma sample_pair_group:
  "same_group (sample_cell 42.31 (- 0.04) 10) (sample_cell 42.34 0.04 20)"
proof -
  have "round_half_even (42.31 * 10) = 423" "round_half_even (42.34 * 10) = 423"
    "round_half_even (- 0.04 * 10) = 0" "round_half_even (0.04 * 10) = 0"
    by (simp_all add: round_half_even_def Let_def)
  then show ?thesis
    by (simp add: same_group_def sample_cell_def)
qed

text \<open>
  Two adjacent cells, at latitudes 42.31 and 42.34 and longitudes -0.04 and 0.04: both
  round to (42.3, 0.0), they are one group, and the single row has the mean of 10 and 20.
\<close>
theorem raster_groups_are_means_witness:
  "\<exists>out w. collect_raster sample_raster 42 43 (- 1) 1 \<lparr>ordinal = 18519, epoch = 1600000000\<rparr> = Inr out \<and>
     raster_cells (sample_raster 42 43 (- 1) 1 \<lparr>ordinal = 18519, epoch = 1600000000\<rparr>) =
       [sample_cell 42.31 (- 0.04) 10, sample_cell 42.34 0.04 20] \<and>
     same_group (sample_cell 42.31 (- 0.04) 10) (sample_cell 42.34 0.04 20) \<and>
     out = [w] \<and> row_means w ''GHI'' = Some ((10 + 20) / 2)"
proof -
  let ?day = "\<lparr>ordinal = 18519, epoch = 1600000000\<rparr>"
  let ?cells = "[sample_cell 42.31 (- 0.04) 10, sample_cell 42.34 0.04 20]"
  have cells: "?cells = raster_cells (sample_raster 42 43 (- 1) 1 ?day)"
    by (simp add: sample_raster_def)
  have r: "collect_raster sample_raster 42 43 (- 1) 1 ?day = Inr (groupby_mean ?cells)"
    by (simp add: collect_raster_def sample_raster_def raster_columns_all_def cols_mean_def
        require_def and_then_def)
  note p5 = raster_groups_are_means [OF r cells, THEN conjunct2, THEN conjunct2, THEN conjunct2,
      THEN conjunct2, THEN conjunct1, THEN spec, THEN spec, THEN mp, OF conjI, OF refl sample_pair_group]
  from p5 obtain w where w: "groupby_mean ?cells = [w]"
    and m: "\<forall>c\<in>set cols_mean. \<forall>u v. cell_values (sample_cell 42.31 (- 0.04) 10) c = Some u \<and>
          cell_values (sample_cell 42.34 0.04 20) c = Some v \<longrightarrow> row_means w c = Some ((u + v) / 2)"
    by (elim exE conjE)
  have "''GHI'' \<in> set cols_mean" by (simp add: cols_mean_def)
  with m have "\<forall>u v. cell_values (sample_cell 42.31 (- 0.04) 10) ''GHI'' = Some u \<and>
          cell_values (sample_cell 42.34 0.04 20) ''GHI'' = Some v \<longrightarrow>
          row_means w ''GHI'' = Some ((u + v) / 2)"
    by (rule bspec)
  then have "cell_values (sample_cell 42.31 (- 0.04) 10) ''GHI'' = Some 10 \<and>
          cell_values (sample_cell 42.34 0.04 20) ''GHI'' = Some 20 \<longrightarrow>
          row_means w ''GHI'' = Some ((10 + 20) / 2)"
    by (elim allE)
  then have g: "row_means w ''GHI'' = Some ((10 + 20) / 2)"
    by (simp add: sample_cell_def)
  from r w have e: "collect_raster sample_raster 42 43 (- 1) 1 ?day = Inr [w]" by (simp only:)
  from e cells [symmetric] sample_pair_group g show ?thesis
    by (intro exI conjI) (assumption | rule refl)+
qed


end
